theory Spec2Isabelle
  imports Main "HOL-Library.Multiset" "HOL-Library.Sublist" "HOL-Library.Code_Target_Nat"
begin

section \<open>Python strings\<close>

text \<open>
  A Python \<^verbatim>\<open>str\<close> is a sequence of Unicode code points. A code point is a natural
  number here, and a string literal of the source is written \<open>lit ''...''\<close>.
\<close>

type_synonym pychar = nat
type_synonym pystr = "pychar list"

definition lit :: "string \<Rightarrow> pystr" where
  "lit s = map of_char s"

text \<open>\<^verbatim>\<open>s.startswith(p)\<close>\<close>

fun py_startswith :: "pystr \<Rightarrow> pystr \<Rightarrow> bool" where
  "py_startswith s [] = True"
| "py_startswith [] (p # ps) = False"
| "py_startswith (c # cs) (p # ps) = (c = p \<and> py_startswith cs ps)"

text \<open>
  The offset of the first occurrence of \<open>sub\<close> in \<open>s\<close>, if there is one: the search that
  \<^verbatim>\<open>sub in s\<close> and \<^verbatim>\<open>s.find(sub, start)\<close> share.
\<close>

fun first_occurrence :: "pystr \<Rightarrow> pystr \<Rightarrow> nat option" where
  "first_occurrence [] sub = (if sub = [] then Some 0 else None)"
| "first_occurrence (c # cs) sub =
     (if py_startswith (c # cs) sub then Some 0
      else map_option Suc (first_occurrence cs sub))"

text \<open>\<^verbatim>\<open>sub in s\<close>\<close>

definition py_in :: "pystr \<Rightarrow> pystr \<Rightarrow> bool" where
  "py_in sub s = (first_occurrence s sub \<noteq> None)"

text \<open>
  An index of a slice or of a search start, as Python reads it: a negative index counts
  from the end, and the result is clamped to the string.
\<close>

definition clamp_index :: "pystr \<Rightarrow> int \<Rightarrow> nat" where
  "clamp_index s i =
     (if i < 0 then nat (max 0 (i + int (length s))) else min (nat i) (length s))"

text \<open>\<^verbatim>\<open>s.find(sub, start)\<close>: the lowest index at or after \<open>start\<close>, or \<open>-1\<close>.\<close>

definition py_find :: "pystr \<Rightarrow> pystr \<Rightarrow> int \<Rightarrow> int" where
  "py_find s sub start =
     (if int (length s) < start then - 1
      else case first_occurrence (drop (clamp_index s start) s) sub of
             None \<Rightarrow> - 1
           | Some i \<Rightarrow> int (clamp_index s start + i))"

text \<open>\<^verbatim>\<open>s[a:b]\<close>\<close>

definition py_slice :: "pystr \<Rightarrow> int \<Rightarrow> int \<Rightarrow> pystr" where
  "py_slice s a b = drop (clamp_index s a) (take (clamp_index s b) s)"

text \<open>
  \<^verbatim>\<open>s.replace(old, new)\<close>: every occurrence of \<open>old\<close>, found from left to right without
  overlap, becomes \<open>new\<close>; an empty \<open>old\<close> matches before every character and at the end.
\<close>

fun replace_nonempty :: "pystr \<Rightarrow> pystr \<Rightarrow> pystr \<Rightarrow> pystr" where
  "replace_nonempty [] old new = []"
| "replace_nonempty (c # cs) old new =
     (if py_startswith (c # cs) old
      then new @ replace_nonempty (drop (length old - 1) cs) old new
      else c # replace_nonempty cs old new)"

definition py_replace :: "pystr \<Rightarrow> pystr \<Rightarrow> pystr \<Rightarrow> pystr" where
  "py_replace s old new =
     (if old = [] then new @ concat (map (\<lambda>c. c # new) s)
      else replace_nonempty s old new)"

text \<open>
  \<^verbatim>\<open>c.isspace()\<close> for one character: the code points with the Unicode property
  White_Space or a bidirectional class of WS, B or S.
\<close>

definition py_isspace :: "pychar \<Rightarrow> bool" where
  "py_isspace c =
     ((0x9 \<le> c \<and> c \<le> 0xD) \<or> (0x1C \<le> c \<and> c \<le> 0x20) \<or> c = 0x85 \<or> c = 0xA0
      \<or> c = 0x1680 \<or> (0x2000 \<le> c \<and> c \<le> 0x200A) \<or> c = 0x2028 \<or> c = 0x2029
      \<or> c = 0x202F \<or> c = 0x205F \<or> c = 0x3000)"

text \<open>\<^verbatim>\<open>s.strip()\<close>\<close>

definition py_strip :: "pystr \<Rightarrow> pystr" where
  "py_strip s = rev (dropWhile py_isspace (rev (dropWhile py_isspace s)))"

text \<open>
  \<^verbatim>\<open>s.split(sep)\<close> for a separator that is not empty (the program passes the literal
  of two newlines): the pieces between the occurrences of \<open>sep\<close>, found from left to
  right without overlap.
\<close>

fun py_split :: "pystr \<Rightarrow> pystr \<Rightarrow> pystr list" where
  "py_split [] sep = [[]]"
| "py_split (c # cs) sep =
     (if sep \<noteq> [] \<and> py_startswith (c # cs) sep
      then [] # py_split (drop (length sep - 1) cs) sep
      else (case py_split cs sep of
              [] \<Rightarrow> [[c]]
            | p # ps \<Rightarrow> (c # p) # ps))"

text \<open>\<^verbatim>\<open>sep.join(parts)\<close>\<close>

fun py_join :: "pystr \<Rightarrow> pystr list \<Rightarrow> pystr" where
  "py_join sep [] = []"
| "py_join sep [p] = p"
| "py_join sep (p # q # ps) = p @ sep @ py_join sep (q # ps)"

text \<open>
  \<^verbatim>\<open>s.upper()\<close> maps every character to its full uppercase mapping in the Unicode
  database, which may be several characters. The table belongs to the Python runtime and
  not to this program, so it is the parameter \<open>uc\<close>.
\<close>

definition py_upper :: "(pychar \<Rightarrow> pystr) \<Rightarrow> pystr \<Rightarrow> pystr" where
  "py_upper uc s = concat (map uc s)"

text \<open>The uppercase mapping on ASCII, where a letter has a single uppercase letter.\<close>

definition ascii_uc :: "pychar \<Rightarrow> pystr" where
  "ascii_uc c = (if 97 \<le> c \<and> c \<le> 122 then [c - 32] else [c])"

text \<open>
  \<^verbatim>\<open>re.sub(r'^MARKER(.*)', r'OPEN\1CLOSE', text, flags=re.MULTILINE)\<close> for a literal
  \<open>marker\<close> that is not empty and holds no newline, as are both markers of the program.
  The flag \<open>bol\<close> says that the scan stands at the start of a line, where \<^verbatim>\<open>^\<close>
  matches: at the start of the text and after every newline. The group \<^verbatim>\<open>(.*)\<close>
  takes the rest of the line, since \<^verbatim>\<open>.\<close> matches every character but the newline.
  After a match the scan goes on at the end of that line.
\<close>

function re_sub_header :: "pystr \<Rightarrow> pystr \<Rightarrow> pystr \<Rightarrow> bool \<Rightarrow> pystr \<Rightarrow> pystr" where
  "re_sub_header marker opn cls bol [] = []"
| "re_sub_header marker opn cls bol (c # cs) =
     (if bol \<and> marker \<noteq> [] \<and> py_startswith (c # cs) marker
      then opn @ takeWhile (\<lambda>x. x \<noteq> 10) (drop (length marker) (c # cs)) @ cls
           @ re_sub_header marker opn cls False
               (dropWhile (\<lambda>x. x \<noteq> 10) (drop (length marker) (c # cs)))
      else c # re_sub_header marker opn cls (c = 10) cs)"
  by pat_completeness auto
termination
proof (relation "measure (\<lambda>(marker, opn, cls, bol, s). length s)")
  show "wf (measure (\<lambda>(marker, opn, cls, bol, s). length s))"
    by simp
next
  fix marker opn cls :: pystr and bol :: bool and c :: pychar and cs :: pystr
  assume "bol \<and> marker \<noteq> [] \<and> py_startswith (c # cs) marker"
  then have "0 < length marker"
    by simp
  then have "length (drop (length marker) (c # cs)) < length (c # cs)"
    by simp
  moreover have "length (dropWhile (\<lambda>x. x \<noteq> 10) (drop (length marker) (c # cs)))
      \<le> length (drop (length marker) (c # cs))"
    by (rule length_dropWhile_le)
  ultimately show "((marker, opn, cls, False,
        dropWhile (\<lambda>x. x \<noteq> 10) (drop (length marker) (c # cs))),
      (marker, opn, cls, bol, c # cs))
    \<in> measure (\<lambda>(marker, opn, cls, bol, s). length s)"
    by simp
next
  fix marker opn cls :: pystr and bol :: bool and c :: pychar and cs :: pystr
  show "((marker, opn, cls, c = 10, cs), (marker, opn, cls, bol, c # cs))
    \<in> measure (\<lambda>(marker, opn, cls, bol, s). length s)"
    by simp
qed

section \<open>The converter and the extractors\<close>

text \<open>The loop of \<^verbatim>\<open>markdown_to_html\<close> over the paragraphs, appending to \<open>html_paragraphs\<close>.\<close>

fun paragraphs_loop :: "pystr list \<Rightarrow> pystr list \<Rightarrow> pystr list" where
  "paragraphs_loop [] html_paragraphs = html_paragraphs"
| "paragraphs_loop (p # ps) html_paragraphs =
     (if py_strip p \<noteq> [] \<and> \<not> py_startswith p (lit ''<'')
      then paragraphs_loop ps (html_paragraphs @ [lit ''<p>'' @ py_strip p @ lit ''</p>''])
      else paragraphs_loop ps (html_paragraphs @ [p]))"

definition markdown_to_html :: "pystr \<Rightarrow> pystr" where
  "markdown_to_html text0 =
     (let text1 = re_sub_header (lit ''### '') (lit ''<h3>'') (lit ''</h3>'') True text0;
          text2 = re_sub_header (lit ''## '') (lit ''<h2>'') (lit ''</h2>'') True text1;
          paragraphs = py_split text2 (lit ''\<newline>\<newline>'');
          html_paragraphs = paragraphs_loop paragraphs []
      in py_join (lit ''\<newline>'') html_paragraphs)"

definition overview_fallback :: pystr where
  "overview_fallback =
     lit ''<p>Comprehensive system documentation available in the repository.</p>''"

definition extract_overview :: "pystr \<Rightarrow> pystr" where
  "extract_overview content =
     (if py_in (lit ''## Overview'') content then
        (let start = py_find content (lit ''## Overview'') 0;
             end0 = py_find content (lit ''##'') (start + 1);
             end1 = (if end0 = - 1 then int (length content) else end0);
             overview = py_strip (py_replace (py_slice content start end1)
                                    (lit ''## Overview'') (lit ''''))
         in markdown_to_html overview)
      else overview_fallback)"

definition extract_features :: "pystr \<Rightarrow> pystr" where
  "extract_features content =
     (let features_html = lit ''<div class='features-list'>'';
          features_html =
            (if py_in (lit ''## Key Features'') content \<or> py_in (lit ''### Features'') content
             then features_html
               @ lit ''<p>Advanced features and capabilities documented in detail.</p>''
             else features_html
               @ lit ''<p>Production-ready features with enterprise-grade capabilities.</p>'');
          features_html = features_html @ lit ''</div>''
      in features_html)"

definition extract_api_endpoints :: "(pychar \<Rightarrow> pystr) \<Rightarrow> pystr \<Rightarrow> pystr" where
  "extract_api_endpoints uc content =
     (let api_html = lit ''<div class='api-endpoints'>'';
          api_html =
            (if py_in (lit ''API'') (py_upper uc content)
                \<or> py_in (lit ''ENDPOINT'') (py_upper uc content)
             then api_html
               @ lit ''<p>Complete API documentation with endpoints, parameters, and examples.</p>''
             else api_html
               @ lit ''<p>API documentation available in the comprehensive module documentation.</p>'');
          api_html = api_html @ lit ''</div>''
      in api_html)"

section \<open>The page renderer\<close>

text \<open>One entry of \<^verbatim>\<open>MODULE_MAPPING\<close>: the dictionary with the four keys every entry has.\<close>

record module_info =
  title :: pystr
  description :: pystr
  icon :: pystr
  category :: pystr

text \<open>
  The literal pieces of the page template of \<^verbatim>\<open>create_module_page\<close>, in the order of
  the text, cut at the interpolated fields.
\<close>

definition tpl_1 :: pystr where
  \<open>tpl_1 = lit ''<!DOCTYPE html>
<html lang="en">
<head>
    <meta charset="UTF-8">
    <meta name="viewport" content="width=device-width, initial-scale=1.0">
    <title>''\<close>

definition tpl_2 :: pystr where
  \<open>tpl_2 = lit '' - PARVYOM Metanode</title>
    <meta name="description" content="''\<close>

definition tpl_3 :: pystr where
  \<open>tpl_3 = lit ''">
    
    <!-- Fonts -->
    <link href="https://fonts.googleapis.com/css2?family=Inter:wght@300;400;500;600;700&display=swap" rel="stylesheet">
    <link href="https://cdnjs.cloudflare.com/ajax/libs/font-awesome/6.4.0/css/all.min.css" rel="stylesheet">
    
    <!-- Styles -->
    <link rel="stylesheet" href="../../assets/css/main.css">
    <link rel="stylesheet" href="../../assets/css/components.css">
    <link rel="stylesheet" href="../../assets/css/responsive.css">
</head>
<body>
    <!-- Navigation Header -->
    <nav class="navbar">
        <div class="nav-container">
            <div class="nav-brand">
                <i class="fas fa-cube nav-icon"></i>
                <span class="nav-title">PARVYOM Metanode</span>
                <span class="nav-subtitle">''\<close>

definition tpl_4 :: pystr where
  \<open>tpl_4 = lit ''</span>
            </div>
            
            <div class="nav-menu">
                <a href="../../" class="nav-link">Home</a>
                <a href="../" class="nav-link">Modules</a>
                <a href="#overview" class="nav-link">Overview</a>
                <a href="#features" class="nav-link">Features</a>
                <a href="#api" class="nav-link">API</a>
                <a href="https://github.com/GlobalSushrut/PARVYOM-metanode" class="nav-link github-link" target="_blank">
                    <i class="fab fa-github"></i> GitHub
                </a>
            </div>
        </div>
    </nav>

    <!-- Hero Section -->
    <section class="hero module-hero">
        <div class="container">
            <div class="hero-content">
                <div class="module-icon ''\<close>

definition tpl_5 :: pystr where
  \<open>tpl_5 = lit ''-icon large">
                    <i class="''\<close>

definition tpl_6 :: pystr where
  \<open>tpl_6 = lit ''"></i>
                </div>
                <h1>''\<close>

definition tpl_7 :: pystr where
  \<open>tpl_7 = lit ''</h1>
                <p>''\<close>

definition tpl_8 :: pystr where
  \<open>tpl_8 = lit ''</p>
                <div class="hero-badges">
                    <span class="badge production">Production Ready</span>
                    <span class="badge security">Enterprise Grade</span>
                    <span class="badge performance">High Performance</span>
                </div>
            </div>
        </div>
    </section>

    <!-- Overview Section -->
    <section id="overview" class="content-section">
        <div class="container">
            <h2>System Overview</h2>
            <div class="overview-content">
                ''\<close>

definition tpl_9 :: pystr where
  \<open>tpl_9 = lit ''
            </div>
        </div>
    </section>

    <!-- Features Section -->
    <section id="features" class="features-section">
        <div class="container">
            <h2>Key Features</h2>
            <div class="features-content">
                ''\<close>

definition tpl_10 :: pystr where
  \<open>tpl_10 = lit ''
            </div>
        </div>
    </section>

    <!-- API Section -->
    <section id="api" class="api-section">
        <div class="container">
            <h2>API Reference</h2>
            <div class="api-content">
                ''\<close>

definition tpl_11 :: pystr where
  \<open>tpl_11 = lit ''
            </div>
        </div>
    </section>

    <!-- Footer -->
    <footer class="footer">
        <div class="container">
            <div class="footer-content">
                <div class="footer-section">
                    <h3>PARVYOM Metanode</h3>
                    <p>Revolutionary enterprise blockchain infrastructure with AI, IoT, and quantum-safe security.</p>
                </div>
                <div class="footer-section">
                    <h4>Documentation</h4>
                    <ul>
                        <li><a href="../../">Overview</a></li>
                        <li><a href="../../#architecture">Architecture</a></li>
                        <li><a href="../">Modules</a></li>
                        <li><a href="../../#deployment">Deployment</a></li>
                    </ul>
                </div>
            </div>
            <div class="footer-bottom">
                <p>&copy; 2024 PARVYOM Metanode. Enterprise-grade blockchain infrastructure.</p>
            </div>
        </div>
    </footer>

    <!-- Scripts -->
    <script src="../../assets/js/main.js"></script>
</body>
</html>''\<close>

text \<open>The template with its fields filled in, nothing escaped.\<close>

definition page_template :: "module_info \<Rightarrow> pystr \<Rightarrow> pystr \<Rightarrow> pystr \<Rightarrow> pystr" where
  "page_template module_info overview features api_endpoints =
     tpl_1 @ title module_info @ tpl_2 @ description module_info @ tpl_3
     @ title module_info @ tpl_4 @ category module_info @ tpl_5 @ icon module_info
     @ tpl_6 @ title module_info @ tpl_7 @ description module_info @ tpl_8
     @ overview @ tpl_9 @ features @ tpl_10 @ api_endpoints @ tpl_11"

section \<open>The module table\<close>

text \<open>The dictionary in the order of its text, which is the order Python iterates it in.\<close>

definition MODULE_MAPPING :: "(pystr \<times> module_info) list" where
  "MODULE_MAPPING =
    [(lit ''01-firstuse'',
      \<lparr>title = lit ''First Use Guide'',
       description = lit ''Complete getting started guide for PARVYOM Metanode deployment and initial setup'',
       icon = lit ''fas fa-play-circle'',
       category = lit ''getting-started''\<rparr>),
     (lit ''02-toolkit'',
      \<lparr>title = lit ''Development Toolkit'',
       description = lit ''Comprehensive development tools and utilities for PARVYOM Metanode ecosystem'',
       icon = lit ''fas fa-toolbox'',
       category = lit ''development''\<rparr>),
     (lit ''03-httpcg-client'',
      \<lparr>title = lit ''HttpCG Client'',
       description = lit ''Next-generation HTTP client with quantum-safe security and Web2-Web3 bridging'',
       icon = lit ''fas fa-globe'',
       category = lit ''networking''\<rparr>),
     (lit ''04-httpcg-gateway'',
      \<lparr>title = lit ''HttpCG Gateway'',
       description = lit ''Enterprise gateway with protocol transformation and security enforcement'',
       icon = lit ''fas fa-shield-alt'',
       category = lit ''networking''\<rparr>),
     (lit ''05-docklock-enc-orchestration'',
      \<lparr>title = lit ''DockLock ENC Orchestration'',
       description = lit ''Container orchestration with execution network clusters and security isolation'',
       icon = lit ''fas fa-cubes'',
       category = lit ''infrastructure''\<rparr>),
     (lit ''10-bpi-core'',
      \<lparr>title = lit ''BPI Core System'',
       description = lit ''Foundational BPI infrastructure with consensus, validation, and transaction processing'',
       icon = lit ''fas fa-microchip'',
       category = lit ''core''\<rparr>),
     (lit ''11-bpi-ledger'',
      \<lparr>title = lit ''BPI Ledger'',
       description = lit ''Distributed ledger technology with immutable records and cryptographic proofs'',
       icon = lit ''fas fa-book'',
       category = lit ''core''\<rparr>),
     (lit ''25-merkle-trees'',
      \<lparr>title = lit ''Merkle Trees'',
       description = lit ''Multi-architecture Merkle tree system with ZIPLOCK-JSON rollups and ZK accumulators'',
       icon = lit ''fas fa-tree'',
       category = lit ''cryptography''\<rparr>),
     (lit ''27-network-protocols'',
      \<lparr>title = lit ''Network Protocols'',
       description = lit ''XTMP protocol for high-performance BPI communication and HTTP Cage transformation'',
       icon = lit ''fas fa-network-wired'',
       category = lit ''networking''\<rparr>),
     (lit ''31-security-auditing'',
      \<lparr>title = lit ''Security Auditing'',
       description = lit ''Unified audit system with immutable trails and cross-system security monitoring'',
       icon = lit ''fas fa-search'',
       category = lit ''security''\<rparr>),
     (lit ''32-performance-optimization'',
      \<lparr>title = lit ''Performance Optimization'',
       description = lit ''Criterion-based benchmarking with real-world performance testing and optimization'',
       icon = lit ''fas fa-tachometer-alt'',
       category = lit ''performance''\<rparr>),
     (lit ''33-operations-maintenance'',
      \<lparr>title = lit ''Operations & Maintenance'',
       description = lit ''CLI maintenance system with advanced database operations and multi-cloud infrastructure'',
       icon = lit ''fas fa-tools'',
       category = lit ''operations''\<rparr>),
     (lit ''34-compliance-regulatory'',
      \<lparr>title = lit ''Compliance & Regulatory'',
       description = lit ''Multi-framework compliance with SOC 2, ISO 27001, GDPR, HIPAA, and PCI DSS support'',
       icon = lit ''fas fa-gavel'',
       category = lit ''compliance''\<rparr>),
     (lit ''39-iot-edge-computing'',
      \<lparr>title = lit ''IoT & Edge Computing'',
       description = lit ''Ultra-lightweight IoT protocols with edge computing and device orchestration'',
       icon = lit ''fas fa-microchip'',
       category = lit ''iot''\<rparr>),
     (lit ''40-blockchain-infrastructure'',
      \<lparr>title = lit ''Blockchain Infrastructure'',
       description = lit ''Enterprise-grade blockchain core with IBFT consensus and validator infrastructure'',
       icon = lit ''fas fa-link'',
       category = lit ''blockchain''\<rparr>)]"

section \<open>The file system\<close>

text \<open>
  What the program sees of the file system: for each path, whether there is a directory,
  a regular file that reads as a text, or a regular file whose bytes are not UTF-8. A
  path is a string and is compared as one; the root is the path of one slash. The
  exceptions modelled are those of a path that is missing or holds the wrong kind of
  entry, and those of bytes that do not decode; the program catches none of them.
  Permissions, resource limits, links and other processes are outside the model.
\<close>

datatype node = Dir | File pystr | Binary

type_synonym filesystem = "pystr \<rightharpoonup> node"

datatype error =
    FileExistsError pystr
  | FileNotFoundError pystr
  | IsADirectoryError pystr
  | NotADirectoryError pystr
  | UnicodeDecodeError pystr

text \<open>\<^verbatim>\<open>os.path.join(a, b)\<close> on POSIX\<close>

definition os_path_join :: "pystr \<Rightarrow> pystr \<Rightarrow> pystr" where
  "os_path_join a b =
     (if py_startswith b (lit ''/'') then b
      else if a = [] \<or> last a = 47 then a @ b
      else a @ lit ''/'' @ b)"

text \<open>\<^verbatim>\<open>os.path.exists(p)\<close>\<close>

definition os_path_exists :: "filesystem \<Rightarrow> pystr \<Rightarrow> bool" where
  "os_path_exists fs p = (fs p \<noteq> None)"

text \<open>\<^verbatim>\<open>os.path.isdir(p)\<close>\<close>

definition os_path_isdir :: "filesystem \<Rightarrow> pystr \<Rightarrow> bool" where
  "os_path_isdir fs p = (fs p = Some Dir)"

text \<open>
  \<^verbatim>\<open>os.path.split(p)\<close> on POSIX: the tail is what follows the last slash, the head is
  what stands before the tail, without its trailing slashes unless it is slashes only.
\<close>

definition os_path_split :: "pystr \<Rightarrow> pystr \<times> pystr" where
  "os_path_split p =
     (let tail = rev (takeWhile (\<lambda>c. c \<noteq> 47) (rev p));
          head = rev (dropWhile (\<lambda>c. c \<noteq> 47) (rev p));
          head = (if head \<noteq> [] \<and> head \<noteq> replicate (length head) 47
                  then rev (dropWhile (\<lambda>c. c = 47) (rev head)) else head)
      in (head, tail))"

text \<open>
  The head and the tail as \<^verbatim>\<open>os.makedirs\<close> takes them: a name that ends in a slash is
  split once more. The head is the directory that holds the name.
\<close>

definition head_tail :: "pystr \<Rightarrow> pystr \<times> pystr" where
  "head_tail name =
     (case os_path_split name of
        (head, tail) \<Rightarrow> if tail = [] then os_path_split head else (head, tail))"

text \<open>
  \<^verbatim>\<open>os.mkdir(p)\<close>: the directory that holds \<open>p\<close> has to be there and be a directory,
  and nothing may be at \<open>p\<close>.
\<close>

definition os_mkdir :: "filesystem \<Rightarrow> pystr \<Rightarrow> error + filesystem" where
  "os_mkdir fs p =
     (case fs (fst (head_tail p)) of
        None \<Rightarrow> Inl (FileNotFoundError p)
      | Some Dir \<Rightarrow> (if fs p = None then Inr (fs(p \<mapsto> Dir)) else Inl (FileExistsError p))
      | Some other \<Rightarrow> Inl (NotADirectoryError p))"

text \<open>
  The end of \<^verbatim>\<open>os.makedirs(name, exist_ok=True)\<close>: the \<^verbatim>\<open>mkdir\<close> of the name itself,
  whose exception is dropped when the name is a directory. The result is the exception
  raised, if any, and the file system as it then is.
\<close>

definition makedirs_leaf :: "filesystem \<Rightarrow> pystr \<Rightarrow> error option \<times> filesystem" where
  "makedirs_leaf fs name =
     (case os_mkdir fs name of
        Inl e \<Rightarrow> if os_path_isdir fs name then (None, fs) else (Some e, fs)
      | Inr fs1 \<Rightarrow> (None, fs1))"

text \<open>
  What \<^verbatim>\<open>os.makedirs\<close> does after the call of itself on the head: a
  \<^verbatim>\<open>FileExistsError\<close> of that call is passed over, any other exception is raised on;
  then a tail that is the current directory ends the work, and otherwise the name
  itself is made.
\<close>

definition makedirs_after ::
  "pystr \<Rightarrow> pystr \<Rightarrow> error option \<times> filesystem \<Rightarrow> error option \<times> filesystem" where
  "makedirs_after tail name r =
     (case r of
        (Some (FileExistsError p), fs1) \<Rightarrow>
          if tail = lit ''.'' then (None, fs1) else makedirs_leaf fs1 name
      | (Some e, fs1) \<Rightarrow> (Some e, fs1)
      | (None, fs1) \<Rightarrow>
          if tail = lit ''.'' then (None, fs1) else makedirs_leaf fs1 name)"

text \<open>
  \<^verbatim>\<open>os.makedirs(name, exist_ok=True)\<close>: where the head is missing it is made first, by
  the same steps, and then the name.
\<close>

function os_makedirs :: "filesystem \<Rightarrow> pystr \<Rightarrow> error option \<times> filesystem" where
  "os_makedirs fs name =
     (if fst (head_tail name) \<noteq> [] \<and> snd (head_tail name) \<noteq> []
         \<and> \<not> os_path_exists fs (fst (head_tail name))
      then makedirs_after (snd (head_tail name)) name (os_makedirs fs (fst (head_tail name)))
      else makedirs_leaf fs name)"
  by pat_completeness auto
termination
proof (relation "measure (\<lambda>(fs, name). length name)")
  show "wf (measure (\<lambda>(fs :: filesystem, name :: pystr). length name))"
    by simp
next
  fix fs :: filesystem and name :: pystr
  assume "fst (head_tail name) \<noteq> [] \<and> snd (head_tail name) \<noteq> []
    \<and> \<not> os_path_exists fs (fst (head_tail name))"
  then have t: "snd (head_tail name) \<noteq> []"
    by simp
  have shorter: "length (fst (os_path_split p)) + length (snd (os_path_split p)) \<le> length p"
    for p :: pystr
  proof -
    let ?h = "rev (dropWhile (\<lambda>c. c \<noteq> 47) (rev p))"
    have "length (rev (dropWhile (\<lambda>c. c = 47) (rev ?h))) \<le> length ?h"
      using length_dropWhile_le [of "\<lambda>c. c = 47" "rev ?h"] by simp
    moreover have "length (takeWhile (\<lambda>c. c \<noteq> 47) (rev p))
        + length (dropWhile (\<lambda>c. c \<noteq> 47) (rev p)) = length (rev p)"
      by (metis length_append takeWhile_dropWhile_id)
    then have "length ?h + length (takeWhile (\<lambda>c. c \<noteq> 47) (rev p)) = length p"
      by simp
    ultimately show ?thesis
      by (simp add: os_path_split_def Let_def)
  qed
  obtain h1 t1 where s1: "os_path_split name = (h1, t1)"
    by (cases "os_path_split name") auto
  have l1: "length h1 + length t1 \<le> length name"
    using shorter [of name] by (simp add: s1)
  have "length (fst (head_tail name)) < length name"
  proof (cases "t1 = []")
    case True
    obtain h2 t2 where s2: "os_path_split h1 = (h2, t2)"
      by (cases "os_path_split h1") auto
    have "length h2 + length t2 \<le> length h1"
      using shorter [of h1] by (simp add: s2)
    moreover have "t2 \<noteq> []"
      using t True by (simp add: head_tail_def s1 s2)
    then have "0 < length t2"
      by simp
    ultimately have "length h2 < length name"
      using l1 by arith
    then show ?thesis
      using True by (simp add: head_tail_def s1 s2)
  next
    case False
    then have "0 < length t1"
      by simp
    with l1 have "length h1 < length name"
      by arith
    with False show ?thesis
      by (simp add: head_tail_def s1)
  qed
  then show "((fs, fst (head_tail name)), fs, name) \<in> measure (\<lambda>(fs, name). length name)"
    by simp
qed

text \<open>
  \<^verbatim>\<open>open(p, 'r', encoding='utf-8')\<close> and \<^verbatim>\<open>f.read()\<close>. The text of a file is the text
  as it is read.
\<close>

definition open_read :: "filesystem \<Rightarrow> pystr \<Rightarrow> error + pystr" where
  "open_read fs p =
     (case fs p of
        Some (File c) \<Rightarrow> Inr c
      | Some Binary \<Rightarrow> Inl (UnicodeDecodeError p)
      | Some Dir \<Rightarrow> Inl (IsADirectoryError p)
      | None \<Rightarrow> Inl (FileNotFoundError p))"

text \<open>
  \<^verbatim>\<open>open(p, 'w', encoding='utf-8')\<close> and \<^verbatim>\<open>f.write(text)\<close>: the directory that holds
  \<open>p\<close> has to be there, and \<open>p\<close> must not be a directory; a file that is there is
  replaced.
\<close>

definition open_write :: "filesystem \<Rightarrow> pystr \<Rightarrow> pystr \<Rightarrow> error + filesystem" where
  "open_write fs p content =
     (case fs (fst (head_tail p)) of
        None \<Rightarrow> Inl (FileNotFoundError p)
      | Some Dir \<Rightarrow>
          (if fs p = Some Dir then Inl (IsADirectoryError p)
           else Inr (fs(p \<mapsto> File content)))
      | Some other \<Rightarrow> Inl (NotADirectoryError p))"

definition create_module_page ::
  "(pychar \<Rightarrow> pystr) \<Rightarrow> filesystem \<Rightarrow> pystr \<Rightarrow> module_info \<Rightarrow> pystr \<Rightarrow> error + pystr" where
  "create_module_page uc fs folder_name module_info doc_path =
     (let readme_path = os_path_join doc_path (lit ''README.md'') in
      case (if os_path_exists fs readme_path then open_read fs readme_path
            else Inr (lit '''')) of
        Inl e \<Rightarrow> Inl e
      | Inr content \<Rightarrow>
          (let overview = extract_overview content;
               features = extract_features content;
               api_endpoints = extract_api_endpoints uc content
           in Inr (page_template module_info overview features api_endpoints)))"

section \<open>The driver\<close>

text \<open>The console and the file system, which the driver changes as it runs.\<close>

record world =
  disk :: filesystem
  stdout :: "pystr list"

definition print :: "pystr \<Rightarrow> world \<Rightarrow> world" where
  "print line w = w\<lparr>stdout := stdout w @ [line]\<rparr>"

text \<open>\<^verbatim>\<open>str(n)\<close> for an integer\<close>

fun digits :: "nat \<Rightarrow> pystr" where
  "digits n = (if n < 10 then [48 + n] else digits (n div 10) @ [48 + n mod 10])"

definition py_str :: "int \<Rightarrow> pystr" where
  "py_str n = (if n < 0 then 45 # digits (nat (- n)) else digits (nat n))"

text \<open>\<^verbatim>\<open>s * n\<close>\<close>

definition py_repeat :: "pystr \<Rightarrow> nat \<Rightarrow> pystr" where
  "py_repeat s n = concat (replicate n s)"

definition docs_dir :: pystr where
  "docs_dir = lit ''/home/umesh/documentation''"

definition output_dir :: pystr where
  "output_dir = lit ''/home/umesh/metanode/docs/modules''"

text \<open>
  The body of the loop of \<^verbatim>\<open>main\<close> for one entry of the table. The result is the
  exception that ended the run, if one was raised, with the world and the counter as
  they stood then.
\<close>

definition loop_body ::
  "(pychar \<Rightarrow> pystr) \<Rightarrow> pystr \<times> module_info \<Rightarrow> world \<times> int \<Rightarrow> error option \<times> world \<times> int" where
  "loop_body uc entry st =
     (case entry of (folder_name, module_info) \<Rightarrow>
      case st of (w, generated_count) \<Rightarrow>
        (let doc_path = os_path_join docs_dir folder_name in
         if os_path_exists (disk w) doc_path then
           (let module_dir =
                  os_path_join output_dir (py_replace folder_name (lit ''-'') (lit ''-''))
            in case os_makedirs (disk w) module_dir of
                 (Some e, fs1) \<Rightarrow> (Some e, w\<lparr>disk := fs1\<rparr>, generated_count)
               | (None, fs1) \<Rightarrow>
                   (case create_module_page uc fs1 folder_name module_info doc_path of
                      Inl e \<Rightarrow> (Some e, w\<lparr>disk := fs1\<rparr>, generated_count)
                    | Inr html_content \<Rightarrow>
                        (let output_file = os_path_join module_dir (lit ''index.html'')
                         in case open_write fs1 output_file html_content of
                              Inl e \<Rightarrow> (Some e, w\<lparr>disk := fs1\<rparr>, generated_count)
                            | Inr fs2 \<Rightarrow>
                                (None,
                                 print ([0x2705] @ lit '' Generated: '' @ title module_info)
                                   (w\<lparr>disk := fs2\<rparr>),
                                 generated_count + 1))))
         else (None,
               print ([0x26A0, 0xFE0F] @ lit ''  Missing: '' @ folder_name) w,
               generated_count)))"

fun main_loop ::
  "(pychar \<Rightarrow> pystr) \<Rightarrow> (pystr \<times> module_info) list \<Rightarrow> world \<times> int
   \<Rightarrow> error option \<times> world \<times> int" where
  "main_loop uc [] st = (None, st)"
| "main_loop uc (entry # rest) st =
     (case loop_body uc entry st of
        (Some e, st') \<Rightarrow> (Some e, st')
      | (None, st') \<Rightarrow> main_loop uc rest st')"

text \<open>
  \<^verbatim>\<open>main\<close> over a table: the two lines of the banner, the loop, and the five closing
  lines when no exception ended the run.
\<close>

definition main_on ::
  "(pystr \<times> module_info) list \<Rightarrow> (pychar \<Rightarrow> pystr) \<Rightarrow> filesystem \<Rightarrow> error option \<times> world" where
  "main_on table uc fs0 =
     (let w = print ([0x1F680] @ lit '' PARVYOM Metanode Module Page Generator'')
                \<lparr>disk = fs0, stdout = []\<rparr>;
          w = print (py_repeat (lit ''='') 50) w
      in case main_loop uc table (w, 0) of
           (Some e, w, generated_count) \<Rightarrow> (Some e, w)
         | (None, w, generated_count) \<Rightarrow>
             (None,
              print (lit ''   3. Test on live website'')
                (print (lit ''   2. Commit and push to GitHub Pages'')
                  (print (lit ''   1. Review generated pages'')
                    (print ([0x1F4CB] @ lit '' Next steps:'')
                      (print ([0x1F389] @ lit '' Generated '' @ py_str generated_count
                                @ lit '' module pages successfully!'')
                        (print (py_repeat (lit ''='') 50) w)))))))"

definition main :: "(pychar \<Rightarrow> pystr) \<Rightarrow> filesystem \<Rightarrow> error option \<times> world" where
  "main uc fs0 = main_on MODULE_MAPPING uc fs0"

section \<open>The fixed texts\<close>

text \<open>The two results \<^verbatim>\<open>extract_features\<close> can have, and the two of \<^verbatim>\<open>extract_api_endpoints\<close>.\<close>

definition features_documented :: pystr where
  "features_documented =
     lit ''<div class='features-list'><p>Advanced features and capabilities documented in detail.</p></div>''"

definition features_fallback :: pystr where
  "features_fallback =
     lit ''<div class='features-list'><p>Production-ready features with enterprise-grade capabilities.</p></div>''"

definition api_documented :: pystr where
  "api_documented =
     lit ''<div class='api-endpoints'><p>Complete API documentation with endpoints, parameters, and examples.</p></div>''"

definition api_fallback :: pystr where
  "api_fallback =
     lit ''<div class='api-endpoints'><p>API documentation available in the comprehensive module documentation.</p></div>''"

text \<open>The text right before the overview of a page, and the text right after it.\<close>

definition overview_open :: pystr where
  \<open>overview_open = lit ''<div class="overview-content">
                ''\<close>

definition overview_close :: pystr where
  \<open>overview_close = lit ''
            </div>''\<close>

section \<open>The words of the specification\<close>

text \<open>
  A line with a heading marker at its start becomes the heading tag around the rest of
  the line; any other line stays as it is.
\<close>

definition heading_line :: "pystr \<Rightarrow> pystr \<Rightarrow> pystr \<Rightarrow> pystr \<Rightarrow> pystr" where
  "heading_line marker opn cls l =
     (if py_startswith l marker then opn @ drop (length marker) l @ cls else l)"

text \<open>The two heading levels together, as one rewriting of a line.\<close>

definition header_line :: "pystr \<Rightarrow> pystr" where
  "header_line l =
     (if py_startswith l (lit ''### '') then lit ''<h3>'' @ drop 4 l @ lit ''</h3>''
      else if py_startswith l (lit ''## '') then lit ''<h2>'' @ drop 3 l @ lit ''</h2>''
      else l)"

text \<open>
  A paragraph that is more than whitespace and does not begin with \<^verbatim>\<open><\<close> becomes its
  stripped text inside a paragraph tag; any other paragraph stays as it is.
\<close>

definition wrap_paragraph :: "pystr \<Rightarrow> pystr" where
  "wrap_paragraph p =
     (if py_strip p \<noteq> [] \<and> \<not> py_startswith p (lit ''<'')
      then lit ''<p>'' @ py_strip p @ lit ''</p>'' else p)"

text \<open>
  The driver, seen from the paths it names. A folder name of the table is a plain name:
  not empty, without a slash, and not one of the two names every directory has. For
  such a name the four paths of an entry are these.
\<close>

definition valid_id :: "pystr \<Rightarrow> bool" where
  "valid_id folder_name =
     (folder_name \<noteq> [] \<and> 47 \<notin> set folder_name
      \<and> folder_name \<noteq> lit ''.'' \<and> folder_name \<noteq> lit ''..'')"

definition doc_path_of :: "pystr \<Rightarrow> pystr" where
  "doc_path_of folder_name = docs_dir @ lit ''/'' @ folder_name"

definition readme_of :: "pystr \<Rightarrow> pystr" where
  "readme_of folder_name = docs_dir @ lit ''/'' @ folder_name @ lit ''/README.md''"

definition module_dir_of :: "pystr \<Rightarrow> pystr" where
  "module_dir_of folder_name = output_dir @ lit ''/'' @ folder_name"

definition output_file_of :: "pystr \<Rightarrow> pystr" where
  "output_file_of folder_name = output_dir @ lit ''/'' @ folder_name @ lit ''/index.html''"

text \<open>The output root and the directories above it, from the top.\<close>

definition output_ancestors :: "pystr list" where
  "output_ancestors =
     [lit ''/home'', lit ''/home/umesh'', lit ''/home/umesh/metanode'',
      lit ''/home/umesh/metanode/docs'', lit ''/home/umesh/metanode/docs/modules'']"

text \<open>The document of an entry: the text of its \<^verbatim>\<open>README.md\<close>, or the empty text.\<close>

definition readme_text :: "filesystem \<Rightarrow> pystr \<Rightarrow> pystr" where
  "readme_text fsys folder_name =
     (case fsys (readme_of folder_name) of Some (File c) \<Rightarrow> c | _ \<Rightarrow> [])"

text \<open>The page of an entry, made from its document.\<close>

definition page_of :: "(pychar \<Rightarrow> pystr) \<Rightarrow> filesystem \<Rightarrow> pystr \<times> module_info \<Rightarrow> pystr" where
  "page_of uc fsys entry =
     (case entry of (folder_name, module_info) \<Rightarrow>
        page_template module_info
          (extract_overview (readme_text fsys folder_name))
          (extract_features (readme_text fsys folder_name))
          (extract_api_endpoints uc (readme_text fsys folder_name)))"

text \<open>The line the driver prints for an entry: the success notice or the warning.\<close>

definition line_of :: "filesystem \<Rightarrow> pystr \<times> module_info \<Rightarrow> pystr" where
  "line_of fsys entry =
     (case entry of (folder_name, module_info) \<Rightarrow>
        if fsys (doc_path_of folder_name) \<noteq> None
        then [0x2705] @ lit '' Generated: '' @ title module_info
        else [0x26A0, 0xFE0F] @ lit ''  Missing: '' @ folder_name)"

text \<open>
  The first thing \<^verbatim>\<open>os.makedirs\<close> does for a module directory: where the output root
  is missing, it is made, with the directories above it.
\<close>

definition ensure_output_dir :: "filesystem \<Rightarrow> error option \<times> filesystem" where
  "ensure_output_dir fsys =
     (if fsys output_dir = None then os_makedirs fsys output_dir else (None, fsys))"

text \<open>
  What \<^verbatim>\<open>os.makedirs\<close> does to a file system in which the name is missing, with \<open>A\<close>
  the paths it may make: it makes directories only, where nothing was, and on success
  the name is one of them; when it raises, it has made nothing, and it does not raise a
  \<^verbatim>\<open>FileExistsError\<close>.
\<close>

definition makedirs_creates :: "pystr set \<Rightarrow> filesystem \<Rightarrow> pystr \<Rightarrow> bool" where
  "makedirs_creates A fsys name =
     ((fst (os_makedirs fsys name) = None \<longrightarrow> snd (os_makedirs fsys name) name = Some Dir)
      \<and> (fst (os_makedirs fsys name) \<noteq> None \<longrightarrow> snd (os_makedirs fsys name) = fsys)
      \<and> (\<forall>q. fst (os_makedirs fsys name) \<noteq> Some (FileExistsError q))
      \<and> (\<forall>p. snd (os_makedirs fsys name) p \<noteq> fsys p \<longrightarrow>
            p \<in> A \<and> fsys p = None \<and> snd (os_makedirs fsys name) p = Some Dir))"

text \<open>
  The module directory can be made, or is there: it is a directory already, or the
  output root is a directory and nothing is in the place of the module directory.
  Otherwise \<^verbatim>\<open>os.mkdir\<close> raises the exception that follows.
\<close>

definition module_dir_ok :: "filesystem \<Rightarrow> pystr \<Rightarrow> bool" where
  "module_dir_ok fsys folder_name =
     (fsys (module_dir_of folder_name) = Some Dir
      \<or> fsys output_dir = Some Dir \<and> fsys (module_dir_of folder_name) = None)"

definition module_dir_error :: "filesystem \<Rightarrow> pystr \<Rightarrow> error" where
  "module_dir_error fsys folder_name =
     (case fsys output_dir of
        None \<Rightarrow> FileNotFoundError (module_dir_of folder_name)
      | Some Dir \<Rightarrow> FileExistsError (module_dir_of folder_name)
      | Some other \<Rightarrow> NotADirectoryError (module_dir_of folder_name))"

text \<open>
  Nothing stands in the way of an entry: where its source folder is there, the output
  root can be made or is there, the module directory can be made or is there, the
  \<^verbatim>\<open>README.md\<close> is not a directory and decodes, and the \<^verbatim>\<open>index.html\<close> is not
  a directory.
\<close>

definition entry_ok :: "filesystem \<Rightarrow> pystr \<Rightarrow> bool" where
  "entry_ok fsys folder_name =
     (fsys (doc_path_of folder_name) = None
      \<or> fst (ensure_output_dir fsys) = None
        \<and> module_dir_ok (snd (ensure_output_dir fsys)) folder_name
        \<and> fsys (readme_of folder_name) \<noteq> Some Dir
        \<and> fsys (readme_of folder_name) \<noteq> Some Binary
        \<and> fsys (output_file_of folder_name) \<noteq> Some Dir)"

text \<open>
  What one pass of the loop body does to the file system, what it prints and what it
  adds to the counter, or the exception it raises.
\<close>

definition entry_effect ::
  "(pychar \<Rightarrow> pystr) \<Rightarrow> pystr \<times> module_info \<Rightarrow> filesystem
   \<Rightarrow> error option \<times> filesystem \<times> pystr list \<times> int" where
  "entry_effect uc entry fsys =
     (case entry of (folder_name, module_info) \<Rightarrow>
        if fsys (doc_path_of folder_name) = None
        then (None, fsys, [line_of fsys entry], 0)
        else if fst (ensure_output_dir fsys) \<noteq> None
        then (fst (ensure_output_dir fsys), snd (ensure_output_dir fsys), [], 0)
        else if \<not> module_dir_ok (snd (ensure_output_dir fsys)) folder_name
        then (Some (module_dir_error (snd (ensure_output_dir fsys)) folder_name),
              snd (ensure_output_dir fsys), [], 0)
        else if fsys (readme_of folder_name) = Some Dir
        then (Some (IsADirectoryError (readme_of folder_name)),
              (snd (ensure_output_dir fsys))(module_dir_of folder_name \<mapsto> Dir), [], 0)
        else if fsys (readme_of folder_name) = Some Binary
        then (Some (UnicodeDecodeError (readme_of folder_name)),
              (snd (ensure_output_dir fsys))(module_dir_of folder_name \<mapsto> Dir), [], 0)
        else if fsys (output_file_of folder_name) = Some Dir
        then (Some (IsADirectoryError (output_file_of folder_name)),
              (snd (ensure_output_dir fsys))(module_dir_of folder_name \<mapsto> Dir), [], 0)
        else (None,
              (snd (ensure_output_dir fsys))
                (module_dir_of folder_name \<mapsto> Dir,
                 output_file_of folder_name \<mapsto> File (page_of uc fsys entry)),
              [line_of fsys entry], 1))"

text \<open>The passes over a table, one after the other, up to the first exception.\<close>

fun run_effect ::
  "(pychar \<Rightarrow> pystr) \<Rightarrow> (pystr \<times> module_info) list \<Rightarrow> filesystem
   \<Rightarrow> error option \<times> filesystem \<times> pystr list \<times> int" where
  "run_effect uc [] fsys = (None, fsys, [], 0)"
| "run_effect uc (entry # rest) fsys =
     (case entry_effect uc entry fsys of
        (Some e, fs1, ls, k) \<Rightarrow> (Some e, fs1, ls, k)
      | (None, fs1, ls, k) \<Rightarrow>
          (case run_effect uc rest fs1 of
             (r, fs2, ls', k') \<Rightarrow> (r, fs2, ls @ ls', k + k')))"

text \<open>A table of plain names, each once, as a dictionary with such keys is.\<close>

definition valid_table :: "(pystr \<times> module_info) list \<Rightarrow> bool" where
  "valid_table table = (distinct (map fst table) \<and> list_all (\<lambda>entry. valid_id (fst entry)) table)"

text \<open>The lines the driver prints before the loop, and after it with the counter.\<close>

definition banner :: "pystr list" where
  "banner =
     [[0x1F680] @ lit '' PARVYOM Metanode Module Page Generator'',
      py_repeat (lit ''='') 50]"

definition closing :: "int \<Rightarrow> pystr list" where
  "closing generated_count =
     [py_repeat (lit ''='') 50,
      [0x1F389] @ lit '' Generated '' @ py_str generated_count
        @ lit '' module pages successfully!'',
      [0x1F4CB] @ lit '' Next steps:'',
      lit ''   1. Review generated pages'',
      lit ''   2. Commit and push to GitHub Pages'',
      lit ''   3. Test on live website'']"

text \<open>
  Three file systems to run the driver on, each with the directories down to the
  documentation root. In the first, one source folder is there, with its document, and
  nothing of the output. In the second, three source folders are there, the output
  root is there, and a regular file stands where the output directory of the second
  module would be. In the third, the document of the second module is not UTF-8.
\<close>

definition home_fs :: filesystem where
  "home_fs =
     [lit ''/'' \<mapsto> Dir,
      lit ''/home'' \<mapsto> Dir,
      lit ''/home/umesh'' \<mapsto> Dir,
      lit ''/home/umesh/documentation'' \<mapsto> Dir]"

definition docs_fs :: filesystem where
  "docs_fs =
     home_fs
       (lit ''/home/umesh/documentation/01-firstuse'' \<mapsto> Dir,
        lit ''/home/umesh/documentation/01-firstuse/README.md''
          \<mapsto> File (lit ''# First use\<newline>\<newline>## Overview\<newline>Start here.\<newline>''))"

definition blocked_fs :: filesystem where
  "blocked_fs =
     home_fs
       (lit ''/home/umesh/documentation/01-firstuse'' \<mapsto> Dir,
        lit ''/home/umesh/documentation/02-toolkit'' \<mapsto> Dir,
        lit ''/home/umesh/documentation/03-httpcg-client'' \<mapsto> Dir,
        lit ''/home/umesh/metanode'' \<mapsto> Dir,
        lit ''/home/umesh/metanode/docs'' \<mapsto> Dir,
        lit ''/home/umesh/metanode/docs/modules'' \<mapsto> Dir,
        lit ''/home/umesh/metanode/docs/modules/02-toolkit'' \<mapsto> File (lit ''notes''))"

definition binary_fs :: filesystem where
  "binary_fs =
     home_fs
       (lit ''/home/umesh/documentation/01-firstuse'' \<mapsto> Dir,
        lit ''/home/umesh/documentation/02-toolkit'' \<mapsto> Dir,
        lit ''/home/umesh/documentation/02-toolkit/README.md'' \<mapsto> Binary)"

section \<open>Searching and slicing\<close>

lemma py_startswith_append: "py_startswith s p = (\<exists>r. s = p @ r)"
  by (induction s p rule: py_startswith.induct) auto

lemma first_occurrence_Some:
  "first_occurrence s sub = Some i \<Longrightarrow> py_startswith (drop i s) sub \<and> i \<le> length s"
  by (induction s arbitrary: i) (auto split: if_splits)

lemma occurrence_after_marker:
  "first_occurrence (lit ''# Overview'' @ r) (lit ''##'')
     = map_option (\<lambda>j. j + 10) (first_occurrence r (lit ''##''))"
  apply (simp add: lit_def option.map_comp comp_def)
  apply (cases "first_occurrence r [35, 35]")
   apply simp_all
  done

lemma marker_Cons: "lit ''## Overview'' = 35 # lit ''# Overview''"
  by (simp add: lit_def)

lemma marker_length: "length (lit ''## Overview'') = 11"
  by (simp add: lit_def)

text \<open>
  Where the marker stands at offset \<open>i\<close>, the slice that \<^verbatim>\<open>extract_overview\<close> cuts is
  the marker and the section after it: the next \<^verbatim>\<open>##\<close> cannot begin inside the marker.
\<close>

lemma overview_slice:
  assumes "first_occurrence content (lit ''## Overview'') = Some i"
  shows "py_find content (lit ''## Overview'') 0 = int i"
    and "py_slice content (int i)
           (if py_find content (lit ''##'') (int i + 1) = - 1 then int (length content)
            else py_find content (lit ''##'') (int i + 1))
         = lit ''## Overview'' @ py_slice content (int i + 11)
           (if py_find content (lit ''##'') (int i + 1) = - 1 then int (length content)
            else py_find content (lit ''##'') (int i + 1))"
proof -
  from assms obtain r where r: "drop i content = lit ''## Overview'' @ r" and i: "i \<le> length content"
    using first_occurrence_Some py_startswith_append by blast
  have "length (drop i content) = 11 + length r"
    by (simp add: r marker_length)
  then have len: "length content = i + 11 + length r"
    using i by simp
  show "py_find content (lit ''## Overview'') 0 = int i"
    by (simp add: py_find_def clamp_index_def assms)
  have "drop (Suc i) content = tl (drop i content)"
    by (simp add: drop_Suc tl_drop)
  then have d1: "drop (Suc i) content = lit ''# Overview'' @ r"
    by (simp add: r marker_Cons)
  have r11: "drop (i + 11) content = r"
  proof -
    have "drop (i + 11) content = drop 11 (drop i content)"
      by (simp add: add.commute)
    then show ?thesis by (simp add: r marker_length)
  qed
  have c1: "clamp_index content (int i + 1) = Suc i"
    using len by (simp add: clamp_index_def)
  have e0: "py_find content (lit ''##'') (int i + 1)
      = (case first_occurrence r (lit ''##'') of None \<Rightarrow> - 1 | Some j \<Rightarrow> int (i + 11 + j))"
    using len by (simp add: py_find_def c1 d1 occurrence_after_marker split: option.splits)
  have n11: "nat (int i + 11) = i + 11"
    by simp
  show "py_slice content (int i)
           (if py_find content (lit ''##'') (int i + 1) = - 1 then int (length content)
            else py_find content (lit ''##'') (int i + 1))
         = lit ''## Overview'' @ py_slice content (int i + 11)
           (if py_find content (lit ''##'') (int i + 1) = - 1 then int (length content)
            else py_find content (lit ''##'') (int i + 1))"
  proof (cases "first_occurrence r (lit ''##'')")
    case None
    then show ?thesis
      using len by (simp add: e0 py_slice_def clamp_index_def r r11 n11)
  next
    case (Some j)
    then have j: "j \<le> length r"
      using first_occurrence_Some by blast
    have t: "take (i + 11 + j) content = take i content @ lit ''## Overview'' @ take j r"
    proof -
      have "take (i + (11 + j)) content = take i content @ take (11 + j) (drop i content)"
        by (rule take_add)
      then show ?thesis by (simp add: r marker_length add.assoc)
    qed
    have li: "length (take i content) = i"
      using i by simp
    have "drop i (take (i + 11 + j) content) = lit ''## Overview'' @ take j r"
      unfolding t using li by simp
    moreover have "drop (i + 11) (take (i + 11 + j) content) = take j r"
      unfolding t using li by (simp add: marker_length)
    moreover have "nat (int i + 11 + int j) = i + 11 + j"
      by simp
    ultimately show ?thesis
      using len j Some by (simp add: e0 py_slice_def clamp_index_def n11)
  qed
qed

lemma replace_marker_prefix:
  "replace_nonempty (lit ''## Overview'' @ s) (lit ''## Overview'') new
     = new @ replace_nonempty s (lit ''## Overview'') new"
  by (simp add: lit_def)

lemma replace_nonempty_absent:
  "old \<noteq> [] \<Longrightarrow> hd old \<notin> set s \<Longrightarrow> replace_nonempty s old new = s"
  by (induction s) (auto simp: neq_Nil_conv)

lemma py_strip_blank: "list_all py_isspace s \<Longrightarrow> py_strip s = []"
proof -
  assume "list_all py_isspace s"
  then have h: "dropWhile py_isspace s = []"
    by (simp add: list_all_iff)
  show ?thesis
    unfolding py_strip_def h by simp
qed

lemma markdown_to_html_empty: "markdown_to_html [] = []"
  by code_simp

lemma extract_overview_marked:
  assumes "first_occurrence content (lit ''## Overview'') = Some i"
  shows "extract_overview content =
     markdown_to_html (py_strip (replace_nonempty
       (py_slice content (int i + 11)
           (if py_find content (lit ''##'') (int i + 1) = - 1 then int (length content)
            else py_find content (lit ''##'') (int i + 1)))
       (lit ''## Overview'') []))"
proof -
  have ne: "lit ''## Overview'' \<noteq> []"
    by (simp add: lit_def)
  have e: "lit '''' = []"
    by (simp add: lit_def)
  show ?thesis
    using overview_slice [OF assms] assms ne
    by (simp add: extract_overview_def py_in_def Let_def py_replace_def replace_marker_prefix e)
qed

lemma features_texts:
  "extract_features content =
     (if py_in (lit ''## Key Features'') content \<or> py_in (lit ''### Features'') content
      then features_documented else features_fallback)"
  by (simp add: extract_features_def features_documented_def features_fallback_def lit_def)

lemma api_texts:
  "extract_api_endpoints uc content =
     (if py_in (lit ''API'') (py_upper uc content) \<or> py_in (lit ''ENDPOINT'') (py_upper uc content)
      then api_documented else api_fallback)"
  by (simp add: extract_api_endpoints_def api_documented_def api_fallback_def lit_def)

lemma api_texts_differ: "api_documented \<noteq> api_fallback"
  by code_simp

lemma tpl_8_overview_open: "suffix overview_open tpl_8"
  by code_simp

lemma tpl_9_overview_close: "prefix overview_close tpl_9"
  by code_simp

section \<open>The extractors\<close>

text \<open>
  C1. On the document \<^verbatim>\<open>"## Overview\nThis system does X.\n\n## Other"\<close> the overview
  is the paragraph of the section alone: the marker is removed before the conversion, so
  no heading is left of it, and the text stops before the next \<^verbatim>\<open>##\<close>.
\<close>

theorem extract_overview_scenario:
  "extract_overview (lit ''## Overview\<newline>This system does X.\<newline>\<newline>## Other'')
     = lit ''<p>This system does X.</p>''"
  by code_simp

text \<open>The result is not the text with a heading for the marker.\<close>

theorem extract_overview_scenario_no_heading:
  "extract_overview (lit ''## Overview\<newline>This system does X.\<newline>\<newline>## Other'')
     \<noteq> lit ''<h2>Overview</h2>\<newline><p>This system does X.</p>''"
  by code_simp

text \<open>
  C3. A document without the marker \<^verbatim>\<open>## Overview\<close> gets the fixed fallback sentence
  as its overview, and the page made from it holds that sentence, as it is, between the
  opening and the closing of the overview block. The document is the text of the
  \<^verbatim>\<open>README.md\<close>, or the empty text when there is none.
\<close>

theorem overview_fallback_without_marker:
  assumes "\<not> py_in (lit ''## Overview'') content"
    and "fs (os_path_join doc_path (lit ''README.md'')) = Some (File content)
         \<or> fs (os_path_join doc_path (lit ''README.md'')) = None \<and> content = lit ''''"
  shows "extract_overview content = overview_fallback
    \<and> (\<exists>before after.
          create_module_page uc fs folder_name module_info doc_path
            = Inr (before @ overview_open @ overview_fallback @ overview_close @ after))"
proof -
  have o: "extract_overview content = overview_fallback"
    using assms(1) by (simp add: extract_overview_def)
  obtain h where h: "tpl_8 = h @ overview_open"
    using tpl_8_overview_open by (auto simp: suffix_def)
  obtain t where t: "tpl_9 = overview_close @ t"
    using tpl_9_overview_close by (auto simp: prefix_def)
  have "create_module_page uc fs folder_name module_info doc_path
      = Inr (page_template module_info overview_fallback (extract_features content)
               (extract_api_endpoints uc content))"
    using assms(2) o
    by (auto simp: create_module_page_def os_path_exists_def open_read_def Let_def)
  also have "page_template module_info overview_fallback (extract_features content)
               (extract_api_endpoints uc content)
      = (tpl_1 @ title module_info @ tpl_2 @ description module_info @ tpl_3
          @ title module_info @ tpl_4 @ category module_info @ tpl_5 @ icon module_info
          @ tpl_6 @ title module_info @ tpl_7 @ description module_info @ h)
        @ overview_open @ overview_fallback @ overview_close
        @ (t @ extract_features content @ tpl_10 @ extract_api_endpoints uc content @ tpl_11)"
    by (simp add: page_template_def h t)
  finally show ?thesis
    using o by blast
qed

theorem overview_fallback_without_marker_witness:
  "extract_overview (lit ''# Notes'') = overview_fallback
    \<and> (\<exists>before after.
          create_module_page ascii_uc [lit ''d/README.md'' \<mapsto> File (lit ''# Notes'')]
              (lit ''m'') \<lparr>title = [], description = [], icon = [], category = []\<rparr> (lit ''d'')
            = Inr (before @ overview_open @ overview_fallback @ overview_close @ after))"
proof -
  have a: "\<not> py_in (lit ''## Overview'') (lit ''# Notes'')"
    by code_simp
  have p: "os_path_join (lit ''d'') (lit ''README.md'') = lit ''d/README.md''"
    by code_simp
  have b: "[lit ''d/README.md'' \<mapsto> File (lit ''# Notes'')]
             (os_path_join (lit ''d'') (lit ''README.md'')) = Some (File (lit ''# Notes''))
         \<or> [lit ''d/README.md'' \<mapsto> File (lit ''# Notes'')]
             (os_path_join (lit ''d'') (lit ''README.md'')) = None \<and> lit ''# Notes'' = lit ''''"
    by (simp add: p)
  show ?thesis
    using a b
    by (rule overview_fallback_without_marker
        [where content = "lit ''# Notes''"
           and fs = "[lit ''d/README.md'' \<mapsto> File (lit ''# Notes'')]"
           and doc_path = "lit ''d''"])
qed

text \<open>
  C4. The API fragment is the sentence of the complete API documentation, in its fixed
  block, exactly when the uppercased text holds \<^verbatim>\<open>API\<close> or \<^verbatim>\<open>ENDPOINT\<close>, and the
  fallback sentence otherwise; the two texts differ.
\<close>

theorem extract_api_endpoints_iff:
  "(extract_api_endpoints uc content = api_documented)
     = (py_in (lit ''API'') (py_upper uc content) \<or> py_in (lit ''ENDPOINT'') (py_upper uc content))
   \<and> (extract_api_endpoints uc content = api_fallback)
     = (\<not> (py_in (lit ''API'') (py_upper uc content)
           \<or> py_in (lit ''ENDPOINT'') (py_upper uc content)))"
  using api_texts_differ by (auto simp: api_texts)

theorem extract_api_endpoints_iff_witness:
  "extract_api_endpoints ascii_uc (lit ''List of every endpoint'') = api_documented
   \<and> extract_api_endpoints ascii_uc (lit ''Lists and tables'') = api_fallback"
proof -
  have a: "py_in (lit ''ENDPOINT'') (py_upper ascii_uc (lit ''List of every endpoint''))"
    by code_simp
  have b: "\<not> py_in (lit ''API'') (py_upper ascii_uc (lit ''Lists and tables''))"
    by code_simp
  have c: "\<not> py_in (lit ''ENDPOINT'') (py_upper ascii_uc (lit ''Lists and tables''))"
    by code_simp
  show ?thesis
    using extract_api_endpoints_iff [of ascii_uc "lit ''List of every endpoint''"]
      extract_api_endpoints_iff [of ascii_uc "lit ''Lists and tables''"] a b c
    by blast
qed

text \<open>
  C8. The three extractors are total functions from strings to strings; no operation
  they use can raise on a string, so their results carry no error. Without its markers
  each one gives its fallback text, the empty string included, and the features and API
  fragments are never anything but one of their two fixed texts.
\<close>

theorem extractors_fall_back:
  "(\<not> py_in (lit ''## Overview'') content \<longrightarrow> extract_overview content = overview_fallback)
   \<and> (\<not> py_in (lit ''## Key Features'') content \<and> \<not> py_in (lit ''### Features'') content
        \<longrightarrow> extract_features content = features_fallback)
   \<and> (\<not> py_in (lit ''API'') (py_upper uc content)
        \<and> \<not> py_in (lit ''ENDPOINT'') (py_upper uc content)
        \<longrightarrow> extract_api_endpoints uc content = api_fallback)
   \<and> (extract_features content = features_documented
        \<or> extract_features content = features_fallback)
   \<and> (extract_api_endpoints uc content = api_documented
        \<or> extract_api_endpoints uc content = api_fallback)
   \<and> extract_overview (lit '''') = overview_fallback
   \<and> extract_features (lit '''') = features_fallback
   \<and> extract_api_endpoints uc (lit '''') = api_fallback"
proof -
  have e: "lit '''' = []"
    by (simp add: lit_def)
  have n: "\<And>sub. sub \<noteq> [] \<Longrightarrow> \<not> py_in sub []"
    by (simp add: py_in_def)
  have "extract_overview (lit '''') = overview_fallback"
    by (simp add: extract_overview_def e n lit_def)
  moreover have "extract_features (lit '''') = features_fallback"
    by (simp add: features_texts e n lit_def)
  moreover have "extract_api_endpoints uc (lit '''') = api_fallback"
    by (simp add: api_texts e n py_upper_def lit_def)
  ultimately show ?thesis
    by (simp add: extract_overview_def features_texts api_texts)
qed

theorem extractors_fall_back_witness:
  "extract_overview (lit ''plain text'') = overview_fallback
   \<and> extract_features (lit ''plain text'') = features_fallback
   \<and> extract_api_endpoints ascii_uc (lit ''plain text'') = api_fallback"
proof -
  have a: "\<not> py_in (lit ''## Overview'') (lit ''plain text'')"
    by code_simp
  have b: "\<not> py_in (lit ''## Key Features'') (lit ''plain text'')"
    by code_simp
  have c: "\<not> py_in (lit ''### Features'') (lit ''plain text'')"
    by code_simp
  have d: "\<not> py_in (lit ''API'') (py_upper ascii_uc (lit ''plain text''))"
    by code_simp
  have e: "\<not> py_in (lit ''ENDPOINT'') (py_upper ascii_uc (lit ''plain text''))"
    by code_simp
  show ?thesis
    using extractors_fall_back [of "lit ''plain text''" ascii_uc] a b c d e
    by blast
qed

text \<open>
  C10. When the marker is there and the section after it, up to the next \<^verbatim>\<open>##\<close> or
  the end of the text, is nothing but whitespace, the overview is the empty string and
  not the fallback sentence; and the page made from a \<^verbatim>\<open>README.md\<close> with that text
  has the empty string for its overview: nothing stands between the opening and the
  closing of the overview block.
\<close>

theorem extract_overview_blank_section:
  assumes "py_in (lit ''## Overview'') content"
    and "start = py_find content (lit ''## Overview'') 0"
    and "end0 = py_find content (lit ''##'') (start + 1)"
    and "end1 = (if end0 = - 1 then int (length content) else end0)"
    and "list_all py_isspace (py_slice content (start + 11) end1)"
  shows "extract_overview content = [] \<and> extract_overview content \<noteq> overview_fallback
    \<and> (fs (os_path_join doc_path (lit ''README.md'')) = Some (File content) \<longrightarrow>
         create_module_page uc fs folder_name module_info doc_path
           = Inr (page_template module_info [] (extract_features content)
                    (extract_api_endpoints uc content))
         \<and> (\<exists>before after.
              create_module_page uc fs folder_name module_info doc_path
                = Inr (before @ overview_open @ overview_close @ after)))"
proof -
  from assms(1) obtain i where i: "first_occurrence content (lit ''## Overview'') = Some i"
    by (auto simp: py_in_def)
  have s: "start = int i"
    using overview_slice(1) [OF i] assms(2) by simp
  let ?sec = "py_slice content (start + 11) end1"
  have "\<not> py_isspace 35"
    by (simp add: py_isspace_def)
  with assms(5) have "35 \<notin> set ?sec"
    by (auto simp: list_all_iff)
  then have "replace_nonempty ?sec (lit ''## Overview'') [] = ?sec"
    by (intro replace_nonempty_absent) (simp_all add: lit_def)
  moreover have e1: "end1 = (if py_find content (lit ''##'') (int i + 1) = - 1
      then int (length content) else py_find content (lit ''##'') (int i + 1))"
    using assms(3,4) s by simp
  have "extract_overview content
      = markdown_to_html (py_strip (replace_nonempty ?sec (lit ''## Overview'') []))"
    unfolding extract_overview_marked [OF i] s e1 ..
  ultimately have o: "extract_overview content = []"
    using assms(5) by (simp add: py_strip_blank markdown_to_html_empty)
  have nf: "overview_fallback \<noteq> []"
    by (simp add: overview_fallback_def lit_def)
  obtain h where h: "tpl_8 = h @ overview_open"
    using tpl_8_overview_open by (auto simp: suffix_def)
  obtain t where t: "tpl_9 = overview_close @ t"
    using tpl_9_overview_close by (auto simp: prefix_def)
  have page: "page_template module_info [] (extract_features content)
               (extract_api_endpoints uc content)
      = (tpl_1 @ title module_info @ tpl_2 @ description module_info @ tpl_3
          @ title module_info @ tpl_4 @ category module_info @ tpl_5 @ icon module_info
          @ tpl_6 @ title module_info @ tpl_7 @ description module_info @ h)
        @ overview_open @ overview_close
        @ (t @ extract_features content @ tpl_10 @ extract_api_endpoints uc content @ tpl_11)"
    by (simp add: page_template_def h t)
  have made: "create_module_page uc fs folder_name module_info doc_path
      = Inr (page_template module_info [] (extract_features content)
               (extract_api_endpoints uc content))"
    if "fs (os_path_join doc_path (lit ''README.md'')) = Some (File content)"
    using that o
    by (simp add: create_module_page_def os_path_exists_def open_read_def Let_def)
  have "\<exists>before after.
      create_module_page uc fs folder_name module_info doc_path
        = Inr (before @ overview_open @ overview_close @ after)"
    if "fs (os_path_join doc_path (lit ''README.md'')) = Some (File content)"
    unfolding made [OF that] page by blast
  with made o nf show ?thesis
    by simp
qed

theorem extract_overview_blank_section_witness:
  "py_in (lit ''## Overview'') (lit ''## Overview\<newline>   \<newline>## Other'')
   \<and> list_all py_isspace (py_slice (lit ''## Overview\<newline>   \<newline>## Other'') 11 16)
   \<and> extract_overview (lit ''## Overview\<newline>   \<newline>## Other'') = []
   \<and> extract_overview (lit ''## Overview\<newline>   \<newline>## Other'') \<noteq> overview_fallback
   \<and> (\<exists>before after.
        create_module_page ascii_uc
            [lit ''d/README.md'' \<mapsto> File (lit ''## Overview\<newline>   \<newline>## Other'')]
            (lit ''m'') \<lparr>title = [], description = [], icon = [], category = []\<rparr> (lit ''d'')
          = Inr (before @ overview_open @ overview_close @ after))"
proof -
  let ?c = "lit ''## Overview\<newline>   \<newline>## Other''"
  let ?fs = "[lit ''d/README.md'' \<mapsto> File ?c]"
  have a: "py_in (lit ''## Overview'') ?c"
    by code_simp
  have b: "0 = py_find ?c (lit ''## Overview'') 0"
    by code_simp
  have c: "16 = py_find ?c (lit ''##'') (0 + 1)"
    by code_simp
  have d: "(16::int) = (if (16::int) = - 1 then int (length ?c) else 16)"
    by simp
  have e: "list_all py_isspace (py_slice ?c 11 16)"
    by code_simp
  then have e': "list_all py_isspace (py_slice ?c (0 + 11) 16)"
    by simp
  have p: "os_path_join (lit ''d'') (lit ''README.md'') = lit ''d/README.md''"
    by code_simp
  have f: "?fs (os_path_join (lit ''d'') (lit ''README.md'')) = Some (File ?c)"
    by (simp add: p)
  note t = extract_overview_blank_section [OF a b c d e',
      where fs = ?fs and doc_path = "lit ''d''" and uc = ascii_uc and folder_name = "lit ''m''"
        and module_info = "\<lparr>title = [], description = [], icon = [], category = []\<rparr>"]
  have "extract_overview ?c = [] \<and> extract_overview ?c \<noteq> overview_fallback"
    using t by blast
  moreover have "\<exists>before after.
      create_module_page ascii_uc ?fs (lit ''m'')
          \<lparr>title = [], description = [], icon = [], category = []\<rparr> (lit ''d'')
        = Inr (before @ overview_open @ overview_close @ after)"
    using t f by blast
  ultimately show ?thesis
    using a e by blast
qed

section \<open>The converter\<close>

lemma re_sub_header_inside_line:
  "re_sub_header m opn cls False s
     = takeWhile (\<lambda>x. x \<noteq> 10) s
       @ (case dropWhile (\<lambda>x. x \<noteq> 10) s of
            [] \<Rightarrow> []
          | n # rest \<Rightarrow> 10 # re_sub_header m opn cls True rest)"
  by (induction s) simp_all

lemma py_split_lines:
  "py_split s [10]
     = takeWhile (\<lambda>x. x \<noteq> 10) s
       # (case dropWhile (\<lambda>x. x \<noteq> 10) s of
            [] \<Rightarrow> []
          | n # rest \<Rightarrow> py_split rest [10])"
  by (induction s) simp_all

lemma takeWhile_dropWhile_Nil: "takeWhile P (dropWhile P xs) = []"
  by (induction xs) simp_all

lemma py_startswith_takeWhile:
  "py_startswith (takeWhile P s) m \<Longrightarrow> py_startswith s m"
proof -
  assume "py_startswith (takeWhile P s) m"
  then obtain r where "takeWhile P s = m @ r"
    by (auto simp: py_startswith_append)
  then have "s = m @ (r @ dropWhile P s)"
    by (metis append.assoc takeWhile_dropWhile_id)
  then show ?thesis
    unfolding py_startswith_append by blast
qed

lemma re_sub_header_line_start:
  assumes "m \<noteq> []" and "10 \<notin> set m"
  shows "re_sub_header m opn cls True s
     = heading_line m opn cls (takeWhile (\<lambda>x. x \<noteq> 10) s)
       @ (case dropWhile (\<lambda>x. x \<noteq> 10) s of
            [] \<Rightarrow> []
          | n # rest \<Rightarrow> 10 # re_sub_header m opn cls True rest)"
proof (cases s)
  case Nil
  with assms show ?thesis
    by (cases m) (simp_all add: heading_line_def)
next
  case (Cons x xs)
  show ?thesis
  proof (cases "py_startswith s m")
    case True
    then obtain r where r: "s = m @ r"
      by (auto simp: py_startswith_append)
    have tw: "takeWhile (\<lambda>x. x \<noteq> 10) (m @ r) = m @ takeWhile (\<lambda>x. x \<noteq> 10) r"
      using assms(2) by (intro takeWhile_append2) auto
    have dw: "dropWhile (\<lambda>x. x \<noteq> 10) (m @ r) = dropWhile (\<lambda>x. x \<noteq> 10) r"
      using assms(2) by (intro dropWhile_append2) auto
    have "re_sub_header m opn cls True s
        = opn @ takeWhile (\<lambda>x. x \<noteq> 10) (drop (length m) s) @ cls
          @ re_sub_header m opn cls False (dropWhile (\<lambda>x. x \<noteq> 10) (drop (length m) s))"
      using True assms(1) unfolding Cons by simp
    also have "\<dots> = opn @ takeWhile (\<lambda>x. x \<noteq> 10) r @ cls
          @ re_sub_header m opn cls False (dropWhile (\<lambda>x. x \<noteq> 10) r)"
      by (simp add: r)
    also have "re_sub_header m opn cls False (dropWhile (\<lambda>x. x \<noteq> 10) r)
        = (case dropWhile (\<lambda>x. x \<noteq> 10) r of
             [] \<Rightarrow> []
           | n # rest \<Rightarrow> 10 # re_sub_header m opn cls True rest)"
      by (subst re_sub_header_inside_line) (simp add: takeWhile_dropWhile_Nil)
    finally show ?thesis
      by (simp add: r tw dw heading_line_def py_startswith_append)
  next
    case False
    then have nt: "\<not> py_startswith (takeWhile (\<lambda>x. x \<noteq> 10) s) m"
      using py_startswith_takeWhile by blast
    show ?thesis
    proof (cases "x = 10")
      case True
      with False nt show ?thesis
        unfolding Cons by (simp add: heading_line_def)
    next
      case x: False
      have "re_sub_header m opn cls True s = x # re_sub_header m opn cls False xs"
        using False x unfolding Cons by simp
      then show ?thesis
        using nt x unfolding Cons
        by (simp add: re_sub_header_inside_line [of m opn cls xs] heading_line_def)
    qed
  qed
qed

lemma heading_line_twice:
  "heading_line (lit ''## '') (lit ''<h2>'') (lit ''</h2>'')
     (heading_line (lit ''### '') (lit ''<h3>'') (lit ''</h3>'') l) = header_line l"
  by (auto simp: heading_line_def header_line_def lit_def py_startswith_append)

lemma heading_line_no_newline:
  "10 \<notin> set l \<Longrightarrow> 10 \<notin> set (heading_line (lit ''### '') (lit ''<h3>'') (lit ''</h3>'') l)"
  by (auto simp: heading_line_def lit_def dest: in_set_dropD)

lemma py_split_nonempty: "py_split s sep \<noteq> []"
  by (cases s) (auto split: list.splits)

lemma py_join_Cons:
  "ps \<noteq> [] \<Longrightarrow> py_join sep (p # ps) = p @ sep @ py_join sep ps"
  by (cases ps) simp_all

lemma header_stage:
  "re_sub_header (lit ''## '') (lit ''<h2>'') (lit ''</h2>'') True
     (re_sub_header (lit ''### '') (lit ''<h3>'') (lit ''</h3>'') True s)
   = py_join [10] (map header_line (py_split s [10]))"
proof (induction "length s" arbitrary: s rule: less_induct)
  case less
  let ?l = "takeWhile (\<lambda>x. x \<noteq> 10) s"
  let ?f3 = "heading_line (lit ''### '') (lit ''<h3>'') (lit ''</h3>'')"
  have m3: "lit ''### '' \<noteq> []" "10 \<notin> set (lit ''### '')"
    by (simp_all add: lit_def)
  have m2: "lit ''## '' \<noteq> []" "10 \<notin> set (lit ''## '')"
    by (simp_all add: lit_def)
  have l: "10 \<notin> set ?l"
    by (auto dest: set_takeWhileD)
  then have fl: "10 \<notin> set (?f3 ?l)"
    by (rule heading_line_no_newline)
  have twf: "\<And>t. takeWhile (\<lambda>x. x \<noteq> 10) (?f3 ?l @ 10 # t) = ?f3 ?l"
    using fl by (subst takeWhile_append2) auto
  have dwf: "\<And>t. dropWhile (\<lambda>x. x \<noteq> 10) (?f3 ?l @ 10 # t) = 10 # t"
    using fl by (subst dropWhile_append2) auto
  have tw0: "takeWhile (\<lambda>x. x \<noteq> 10) (?f3 ?l) = ?f3 ?l"
    using fl by (intro takeWhile_eq_all_conv [THEN iffD2]) auto
  have dw0: "dropWhile (\<lambda>x. x \<noteq> 10) (?f3 ?l) = []"
    using fl by auto
  show ?case
  proof (cases "dropWhile (\<lambda>x. x \<noteq> 10) s")
    case Nil
    have "py_split s [10] = [?l]"
      by (subst py_split_lines) (simp only: Nil list.case)
    moreover have "re_sub_header (lit ''### '') (lit ''<h3>'') (lit ''</h3>'') True s = ?f3 ?l"
      by (subst re_sub_header_line_start [OF m3]) (simp only: Nil list.case append_Nil2)
    moreover have "re_sub_header (lit ''## '') (lit ''<h2>'') (lit ''</h2>'') True (?f3 ?l)
        = heading_line (lit ''## '') (lit ''<h2>'') (lit ''</h2>'') (?f3 ?l)"
      by (subst re_sub_header_line_start [OF m2]) (simp only: tw0 dw0 list.case append_Nil2)
    ultimately show ?thesis
      by (simp add: heading_line_twice)
  next
    case (Cons n rest)
    have "length (dropWhile (\<lambda>x. x \<noteq> 10) s) \<le> length s"
      by (rule length_dropWhile_le)
    then have "length rest < length s"
      by (simp add: Cons)
    from less [OF this] show ?thesis
      by (simp add: re_sub_header_line_start [OF m3, of _ _ s] Cons
          re_sub_header_line_start [OF m2, of _ _ "?f3 ?l @ 10 # t" for t] py_split_lines [of s]
          twf dwf heading_line_twice py_join_Cons py_split_nonempty)
  qed
qed

lemma py_join_split_lines: "py_join [10] (py_split s [10]) = s"
proof (induction "length s" arbitrary: s rule: less_induct)
  case less
  show ?case
  proof (cases "dropWhile (\<lambda>x. x \<noteq> 10) s")
    case Nil
    have "py_split s [10] = [takeWhile (\<lambda>x. x \<noteq> 10) s]"
      by (subst py_split_lines) (simp only: Nil list.case)
    moreover have "takeWhile (\<lambda>x. x \<noteq> 10) s = s"
      using Nil by simp
    ultimately show ?thesis
      by simp
  next
    case (Cons n rest)
    have "length (dropWhile (\<lambda>x. x \<noteq> 10) s) \<le> length s"
      by (rule length_dropWhile_le)
    then have "length rest < length s"
      by (simp add: Cons)
    moreover have "n = 10"
      using hd_dropWhile [of "\<lambda>x. x \<noteq> 10" s] Cons by simp
    moreover have "s = takeWhile (\<lambda>x. x \<noteq> 10) s @ dropWhile (\<lambda>x. x \<noteq> 10) s"
      by simp
    ultimately show ?thesis
      using less [of rest]
      by (simp add: py_split_lines [of s] Cons py_join_Cons py_split_nonempty)
  qed
qed

lemma paragraphs_loop_map:
  "paragraphs_loop ps acc = acc @ map wrap_paragraph ps"
  by (induction ps arbitrary: acc) (simp_all add: wrap_paragraph_def)

lemma lit_newline: "lit ''\<newline>'' = [10]"
  by (simp add: lit_def)

lemma markdown_to_html_stages:
  "markdown_to_html text0
     = py_join (lit ''\<newline>'')
         (paragraphs_loop
            (py_split (py_join (lit ''\<newline>'') (map header_line (py_split text0 (lit ''\<newline>''))))
               (lit ''\<newline>\<newline>'')) [])"
  by (simp add: markdown_to_html_def header_stage lit_newline)

text \<open>
  C5. The converter rewrites two heading levels and no third: over the lines of the text,
  a line that begins with \<^verbatim>\<open>### \<close> becomes an \<^verbatim>\<open>h3\<close> heading, a line that begins with
  \<^verbatim>\<open>## \<close> an \<^verbatim>\<open>h2\<close> heading, and every other line is kept character for character,
  nothing escaped (\<open>header_line\<close>). The paragraph step follows. On a text with no such
  line the result is the paragraph step of the text itself.
\<close>

theorem markdown_to_html_two_levels:
  "markdown_to_html text0
     = py_join (lit ''\<newline>'')
         (paragraphs_loop
            (py_split (py_join (lit ''\<newline>'') (map header_line (py_split text0 (lit ''\<newline>''))))
               (lit ''\<newline>\<newline>'')) [])
   \<and> ((\<forall>l \<in> set (py_split text0 (lit ''\<newline>'')).
          \<not> py_startswith l (lit ''### '') \<and> \<not> py_startswith l (lit ''## ''))
        \<longrightarrow> markdown_to_html text0
              = py_join (lit ''\<newline>'')
                  (paragraphs_loop (py_split text0 (lit ''\<newline>\<newline>'')) []))"
proof (intro conjI impI)
  show "markdown_to_html text0
     = py_join (lit ''\<newline>'')
         (paragraphs_loop
            (py_split (py_join (lit ''\<newline>'') (map header_line (py_split text0 (lit ''\<newline>''))))
               (lit ''\<newline>\<newline>'')) [])"
    by (rule markdown_to_html_stages)
next
  assume "\<forall>l \<in> set (py_split text0 (lit ''\<newline>'')).
            \<not> py_startswith l (lit ''### '') \<and> \<not> py_startswith l (lit ''## '')"
  then have "map header_line (py_split text0 (lit ''\<newline>'')) = py_split text0 (lit ''\<newline>'')"
    by (intro map_idI) (simp add: header_line_def)
  then show "markdown_to_html text0
      = py_join (lit ''\<newline>'') (paragraphs_loop (py_split text0 (lit ''\<newline>\<newline>'')) [])"
    by (simp add: markdown_to_html_stages) (simp add: lit_newline py_join_split_lines)
qed

theorem markdown_to_html_two_levels_witness:
  "markdown_to_html (lit ''- *item* [x](y)\<newline>1 < 2'') = lit ''<p>- *item* [x](y)\<newline>1 < 2</p>''"
proof -
  let ?t = "lit ''- *item* [x](y)\<newline>1 < 2''"
  have a: "\<forall>l \<in> set (py_split ?t (lit ''\<newline>'')).
             \<not> py_startswith l (lit ''### '') \<and> \<not> py_startswith l (lit ''## '')"
    by code_simp
  have b: "py_join (lit ''\<newline>'') (paragraphs_loop (py_split ?t (lit ''\<newline>\<newline>'')) [])
             = lit ''<p>- *item* [x](y)\<newline>1 < 2</p>''"
    by code_simp
  have "markdown_to_html ?t
      = py_join (lit ''\<newline>'') (paragraphs_loop (py_split ?t (lit ''\<newline>\<newline>'')) [])"
    using markdown_to_html_two_levels [of ?t] a by blast
  then show ?thesis
    by (simp only: b)
qed

text \<open>
  A line of one \<^verbatim>\<open>#\<close> and a line of four are not made headings, and a list item does not
  come out as it went in: it is wrapped as a paragraph.
\<close>

theorem markdown_to_html_no_third_level:
  "markdown_to_html (lit ''# Title'') = lit ''<p># Title</p>''
   \<and> markdown_to_html (lit ''#### Title'') = lit ''<p>#### Title</p>''
   \<and> markdown_to_html (lit ''- item'') \<noteq> lit ''- item''"
proof (intro conjI)
  show "markdown_to_html (lit ''# Title'') = lit ''<p># Title</p>''"
    by code_simp
  show "markdown_to_html (lit ''#### Title'') = lit ''<p>#### Title</p>''"
    by code_simp
  show "markdown_to_html (lit ''- item'') \<noteq> lit ''- item''"
    by code_simp
qed

text \<open>
  C6. After the split at blank lines, a paragraph that is more than whitespace and does
  not begin with \<^verbatim>\<open><\<close> is replaced by its stripped text inside \<^verbatim>\<open><p>\<close> and \<^verbatim>\<open></p>\<close>;
  a paragraph that begins with \<^verbatim>\<open><\<close>, and a paragraph that is empty or only
  whitespace, is left as it is. The loop keeps the number and the order of the paragraphs.
\<close>

theorem paragraphs_wrapped:
  assumes "i < length ps"
  shows "length (paragraphs_loop ps []) = length ps
    \<and> (py_strip (ps ! i) \<noteq> [] \<and> \<not> py_startswith (ps ! i) (lit ''<'')
         \<longrightarrow> paragraphs_loop ps [] ! i = lit ''<p>'' @ py_strip (ps ! i) @ lit ''</p>'')
    \<and> (py_strip (ps ! i) = [] \<or> py_startswith (ps ! i) (lit ''<'')
         \<longrightarrow> paragraphs_loop ps [] ! i = ps ! i)
    \<and> markdown_to_html text0
        = py_join (lit ''\<newline>'')
            (paragraphs_loop
               (py_split (re_sub_header (lit ''## '') (lit ''<h2>'') (lit ''</h2>'') True
                            (re_sub_header (lit ''### '') (lit ''<h3>'') (lit ''</h3>'') True text0))
                  (lit ''\<newline>\<newline>'')) [])"
proof -
  have "paragraphs_loop ps [] ! i = wrap_paragraph (ps ! i)"
    using assms by (simp add: paragraphs_loop_map)
  then show ?thesis
    by (auto simp: paragraphs_loop_map wrap_paragraph_def markdown_to_html_def)
qed

theorem paragraphs_wrapped_witness:
  "paragraphs_loop [lit '' one '', lit '' '', lit ''<b>two</b>''] [] ! 0 = lit ''<p>one</p>''
   \<and> paragraphs_loop [lit '' one '', lit '' '', lit ''<b>two</b>''] [] ! 1 = lit '' ''
   \<and> paragraphs_loop [lit '' one '', lit '' '', lit ''<b>two</b>''] [] ! 2 = lit ''<b>two</b>''"
proof -
  let ?ps = "[lit '' one '', lit '' '', lit ''<b>two</b>'']"
  have a: "py_strip (?ps ! 0) \<noteq> [] \<and> \<not> py_startswith (?ps ! 0) (lit ''<'')"
    by code_simp
  have a': "lit ''<p>'' @ py_strip (?ps ! 0) @ lit ''</p>'' = lit ''<p>one</p>''"
    by code_simp
  have b: "py_strip (?ps ! 1) = []"
    by code_simp
  have c: "py_startswith (?ps ! 2) (lit ''<'')"
    by code_simp
  have "paragraphs_loop ?ps [] ! 0 = lit ''<p>'' @ py_strip (?ps ! 0) @ lit ''</p>''"
    using paragraphs_wrapped [of 0 ?ps] a by simp
  moreover have "paragraphs_loop ?ps [] ! 1 = ?ps ! 1"
    using paragraphs_wrapped [of 1 ?ps] b by simp
  moreover have "paragraphs_loop ?ps [] ! 2 = ?ps ! 2"
    using paragraphs_wrapped [of 2 ?ps] c by simp
  ultimately show ?thesis
    using a' by simp
qed

text \<open>
  A paragraph of one space is not empty and does not begin with \<^verbatim>\<open><\<close>, and it is
  left as it is.
\<close>

theorem blank_paragraph_not_wrapped:
  "py_split (lit ''a\<newline>\<newline> \<newline>\<newline>b'') (lit ''\<newline>\<newline>'') = [lit ''a'', lit '' '', lit ''b'']
   \<and> lit '' '' \<noteq> lit ''''
   \<and> \<not> py_startswith (lit '' '') (lit ''<'')
   \<and> markdown_to_html (lit ''a\<newline>\<newline> \<newline>\<newline>b'') = lit ''<p>a</p>\<newline> \<newline><p>b</p>''"
proof (intro conjI)
  show "py_split (lit ''a\<newline>\<newline> \<newline>\<newline>b'') (lit ''\<newline>\<newline>'') = [lit ''a'', lit '' '', lit ''b'']"
    by code_simp
  show "lit '' '' \<noteq> lit ''''"
    by code_simp
  show "\<not> py_startswith (lit '' '') (lit ''<'')"
    by code_simp
  show "markdown_to_html (lit ''a\<newline>\<newline> \<newline>\<newline>b'') = lit ''<p>a</p>\<newline> \<newline><p>b</p>''"
    by code_simp
qed

section \<open>Paths\<close>

lemma replace_dash: "py_replace s (lit ''-'') (lit ''-'') = s"
proof -
  have "replace_nonempty s [45] [45] = s"
    by (induction s) simp_all
  then show ?thesis
    by (simp add: py_replace_def lit_def)
qed

lemma lit_Nil: "lit '''' = []"
  by (simp add: lit_def)

lemma valid_id_last: "valid_id a \<Longrightarrow> last a \<noteq> 47 \<and> a \<noteq> [] \<and> 47 \<notin> set a \<and> a \<noteq> lit ''.''"
  unfolding valid_id_def by (metis last_in_set)

lemma join_docs_dir: "valid_id a \<Longrightarrow> os_path_join docs_dir a = doc_path_of a"
  by (cases a) (auto simp: valid_id_def os_path_join_def doc_path_of_def docs_dir_def lit_def)

lemma join_output_dir: "valid_id a \<Longrightarrow> os_path_join output_dir a = module_dir_of a"
  by (cases a) (auto simp: valid_id_def os_path_join_def module_dir_of_def output_dir_def lit_def)

lemma join_readme: "valid_id a \<Longrightarrow> os_path_join (doc_path_of a) (lit ''README.md'') = readme_of a"
  using valid_id_last [of a]
  by (simp add: os_path_join_def doc_path_of_def readme_of_def lit_def)

lemma join_index: "valid_id a \<Longrightarrow> os_path_join (module_dir_of a) (lit ''index.html'') = output_file_of a"
  using valid_id_last [of a]
  by (simp add: os_path_join_def module_dir_of_def output_file_of_def lit_def)

lemma docs_not_output:
  "doc_path_of a \<noteq> module_dir_of b" "doc_path_of a \<noteq> output_file_of b"
  "readme_of a \<noteq> module_dir_of b" "readme_of a \<noteq> output_file_of b"
  "module_dir_of b \<noteq> doc_path_of a" "output_file_of b \<noteq> doc_path_of a"
  "module_dir_of b \<noteq> readme_of a" "output_file_of b \<noteq> readme_of a"
  by (simp_all add: doc_path_of_def readme_of_def module_dir_of_def output_file_of_def
      docs_dir_def output_dir_def lit_def)

lemma module_dir_inject: "(module_dir_of a = module_dir_of b) = (a = b)"
  by (simp add: module_dir_of_def)

lemma output_file_inject: "(output_file_of a = output_file_of b) = (a = b)"
  by (simp add: output_file_of_def)

lemma module_dir_not_file:
  "valid_id a \<Longrightarrow> module_dir_of a \<noteq> output_file_of b"
  "valid_id a \<Longrightarrow> output_file_of b \<noteq> module_dir_of a"
  by (auto simp: module_dir_of_def output_file_of_def valid_id_def lit_def)

lemma module_dir_not_own_file:
  "module_dir_of a \<noteq> output_file_of a" "output_file_of a \<noteq> module_dir_of a"
  by (simp_all add: module_dir_of_def output_file_of_def lit_def)

text \<open>No path of an entry is the output root or a directory above it.\<close>

lemma not_output_ancestor:
  "doc_path_of a \<notin> set output_ancestors" "readme_of a \<notin> set output_ancestors"
  "module_dir_of a \<notin> set output_ancestors" "output_file_of a \<notin> set output_ancestors"
  by (simp_all add: output_ancestors_def doc_path_of_def readme_of_def module_dir_of_def
      output_file_of_def docs_dir_def output_dir_def lit_def)

lemma output_dir_ancestor: "output_dir \<in> set output_ancestors"
  by (simp add: output_ancestors_def output_dir_def)

lemma output_dir_not_entry_path:
  "output_dir \<noteq> doc_path_of a" "output_dir \<noteq> readme_of a"
  "output_dir \<noteq> module_dir_of a" "output_dir \<noteq> output_file_of a"
  using not_output_ancestor [of a] output_dir_ancestor by auto

text \<open>Splitting a path whose last part is a plain name.\<close>

lemma os_path_split_join:
  assumes "47 \<notin> set a" and "a \<noteq> []" and "h \<noteq> []" and "last h \<noteq> 47"
  shows "os_path_split (h @ 47 # a) = (h, a)"
proof -
  have r: "rev (h @ 47 # a) = rev a @ 47 # rev h"
    by simp
  have tw: "takeWhile (\<lambda>c. c \<noteq> 47) (rev a @ 47 # rev h) = rev a"
    using assms(1) by (subst takeWhile_append2) auto
  have dw: "dropWhile (\<lambda>c. c \<noteq> 47) (rev a @ 47 # rev h) = 47 # rev h"
    using assms(1) by (subst dropWhile_append2) auto
  have hd: "rev h = last h # rev (butlast h)"
    using assms(3) by (metis append_butlast_last_id rev.simps(2) rev_append rev_rev_ident
        append_Cons append_Nil rev_singleton_conv)
  have ns: "h @ [47] \<noteq> replicate (Suc (length h)) 47"
  proof
    assume "h @ [47] = replicate (Suc (length h)) 47"
    then have "set (h @ [47]) \<subseteq> {47}"
      by (metis set_replicate_conv_if subset_insertI empty_subsetI order_refl)
    then have "set h \<subseteq> {47}"
      by simp
    moreover have "last h \<in> set h"
      using assms(3) by (rule last_in_set)
    ultimately have "last h = 47"
      by blast
    with assms(4) show False ..
  qed
  have st: "dropWhile (\<lambda>c. c = 47) (rev h) = rev h"
  proof -
    have "dropWhile (\<lambda>c. c = 47) (last h # rev (butlast h)) = last h # rev (butlast h)"
      using assms(4) by simp
    then show ?thesis
      by (simp only: hd [symmetric])
  qed
  show ?thesis
    unfolding os_path_split_def Let_def r tw dw
    using ns st by simp
qed

lemma head_tail_join:
  assumes "47 \<notin> set a" and "a \<noteq> []" and "h \<noteq> []" and "last h \<noteq> 47"
  shows "head_tail (h @ 47 # a) = (h, a)"
  using assms by (simp add: head_tail_def os_path_split_join)

lemma head_tail_module_dir: "valid_id a \<Longrightarrow> head_tail (module_dir_of a) = (output_dir, a)"
  using head_tail_join [of a output_dir] valid_id_last [of a]
  by (simp add: module_dir_of_def lit_def) (simp add: output_dir_def lit_def)

lemma head_tail_output_file:
  "valid_id a \<Longrightarrow> head_tail (output_file_of a) = (module_dir_of a, lit ''index.html'')"
proof -
  assume v: "valid_id a"
  have "output_file_of a = module_dir_of a @ 47 # lit ''index.html''"
    by (simp add: output_file_of_def module_dir_of_def lit_def)
  moreover have "head_tail (module_dir_of a @ 47 # lit ''index.html'')
      = (module_dir_of a, lit ''index.html'')"
    using valid_id_last [OF v]
    by (intro head_tail_join) (simp_all add: module_dir_of_def lit_def)
  ultimately show ?thesis
    by simp
qed

section \<open>Making directories\<close>

declare os_makedirs.simps [simp del]

lemma makedirs_leaf_missing:
  assumes "head_tail name = (head, tail)" and "g name = None"
  shows "makedirs_leaf g name
     = (case g head of
          None \<Rightarrow> (Some (FileNotFoundError name), g)
        | Some Dir \<Rightarrow> (None, g(name \<mapsto> Dir))
        | Some other \<Rightarrow> (Some (NotADirectoryError name), g))"
  using assms
  by (simp add: makedirs_leaf_def os_mkdir_def os_path_isdir_def
      split: option.splits node.splits)

lemma makedirs_creates_root:
  assumes "f (lit ''/'') = None"
  shows "makedirs_creates {} f (lit ''/'')"
proof -
  have ht: "head_tail (lit ''/'') = (lit ''/'', [])"
    by code_simp
  have "os_makedirs f (lit ''/'') = makedirs_leaf f (lit ''/'')"
    by (subst os_makedirs.simps) (simp add: ht)
  also have "\<dots> = (Some (FileNotFoundError (lit ''/'')), f)"
    using assms by (simp add: makedirs_leaf_missing [OF ht])
  finally show ?thesis
    by (simp add: makedirs_creates_def)
qed

lemma makedirs_creates_step:
  assumes ht: "head_tail name = (head, tail)"
    and nonempty: "head \<noteq> []" "tail \<noteq> []" and nodot: "tail \<noteq> lit ''.''"
    and IH: "\<And>g. g head = None \<Longrightarrow> makedirs_creates A g head"
    and n: "f name = None" and fresh: "name \<notin> A"
  shows "makedirs_creates (insert name A) f name"
proof (cases "f head = None")
  case False
  have "os_makedirs f name = makedirs_leaf f name"
    using False by (subst os_makedirs.simps) (simp add: ht os_path_exists_def)
  then show ?thesis
    using False n
    by (auto simp: makedirs_creates_def
        makedirs_leaf_missing [where g = f and name = name and head = head and tail = tail, OF ht n]
        split: option.splits node.splits)
next
  case True
  obtain r f1 where rec: "os_makedirs f head = (r, f1)"
    by (cases "os_makedirs f head") auto
  note ih = IH [of f, OF True, unfolded makedirs_creates_def rec fst_conv snd_conv]
  have unfold: "os_makedirs f name = makedirs_after tail name (r, f1)"
    using True nonempty by (subst os_makedirs.simps) (simp add: ht os_path_exists_def rec)
  show ?thesis
  proof (cases r)
    case None
    have h: "f1 head = Some Dir"
      using ih None by simp
    have "f1 name = f name"
      using ih fresh by blast
    then have n1: "f1 name = None"
      using n by simp
    have "os_makedirs f name = (None, f1(name \<mapsto> Dir))"
      using nodot
      by (simp add: unfold None makedirs_after_def h
          makedirs_leaf_missing [where g = f1 and name = name and head = head and tail = tail, OF ht n1])
    moreover have "p \<in> insert name A \<and> f p = None \<and> (f1(name \<mapsto> Dir)) p = Some Dir"
      if d: "(f1(name \<mapsto> Dir)) p \<noteq> f p" for p
    proof (cases "p = name")
      case True
      with n show ?thesis by simp
    next
      case False
      with d have "f1 p \<noteq> f p"
        by simp
      with ih False show ?thesis
        by simp
    qed
    ultimately show ?thesis
      by (simp add: makedirs_creates_def)
  next
    case (Some e)
    have same: "f1 = f"
      using ih Some by simp
    have nfe: "\<forall>q. e \<noteq> FileExistsError q"
      using ih Some by simp
    have "os_makedirs f name = (Some e, f)"
      using nfe by (cases e) (simp_all add: unfold Some makedirs_after_def same)
    then show ?thesis
      using nfe by (simp add: makedirs_creates_def)
  qed
qed

lemma makedirs_creates_output_dir:
  assumes "f output_dir = None"
  shows "makedirs_creates (set output_ancestors) f output_dir"
proof -
  have l1: "makedirs_creates {lit ''/home''} g (lit ''/home'')"
    if "g (lit ''/home'') = None" for g
  proof -
    have ht: "head_tail (lit ''/home'') = (lit ''/'', lit ''home'')"
      by code_simp
    show ?thesis
    proof (rule makedirs_creates_step [where f = g and A = "{}", OF ht])
      show "g (lit ''/home'') = None"
        by (rule that)
      show "\<And>g. g (lit ''/'') = None \<Longrightarrow> makedirs_creates {} g (lit ''/'')"
        by (rule makedirs_creates_root)
    qed (simp_all add: lit_def)
  qed
  have l2: "makedirs_creates {lit ''/home/umesh'', lit ''/home''} g (lit ''/home/umesh'')"
    if "g (lit ''/home/umesh'') = None" for g
  proof -
    have ht: "head_tail (lit ''/home/umesh'') = (lit ''/home'', lit ''umesh'')"
      by code_simp
    show ?thesis
    proof (rule makedirs_creates_step [where f = g and A = "{lit ''/home''}", OF ht])
      show "g (lit ''/home/umesh'') = None"
        by (rule that)
      show "\<And>g. g (lit ''/home'') = None \<Longrightarrow> makedirs_creates {lit ''/home''} g (lit ''/home'')"
        by (rule l1)
    qed (simp_all add: lit_def)
  qed
  have l3: "makedirs_creates {lit ''/home/umesh/metanode'', lit ''/home/umesh'', lit ''/home''} g (lit ''/home/umesh/metanode'')"
    if "g (lit ''/home/umesh/metanode'') = None" for g
  proof -
    have ht: "head_tail (lit ''/home/umesh/metanode'') = (lit ''/home/umesh'', lit ''metanode'')"
      by code_simp
    show ?thesis
    proof (rule makedirs_creates_step [where f = g and A = "{lit ''/home/umesh'', lit ''/home''}", OF ht])
      show "g (lit ''/home/umesh/metanode'') = None"
        by (rule that)
      show "\<And>g. g (lit ''/home/umesh'') = None \<Longrightarrow> makedirs_creates {lit ''/home/umesh'', lit ''/home''} g (lit ''/home/umesh'')"
        by (rule l2)
    qed (simp_all add: lit_def)
  qed
  have l4: "makedirs_creates {lit ''/home/umesh/metanode/docs'', lit ''/home/umesh/metanode'', lit ''/home/umesh'', lit ''/home''} g (lit ''/home/umesh/metanode/docs'')"
    if "g (lit ''/home/umesh/metanode/docs'') = None" for g
  proof -
    have ht: "head_tail (lit ''/home/umesh/metanode/docs'') = (lit ''/home/umesh/metanode'', lit ''docs'')"
      by code_simp
    show ?thesis
    proof (rule makedirs_creates_step [where f = g and A = "{lit ''/home/umesh/metanode'', lit ''/home/umesh'', lit ''/home''}", OF ht])
      show "g (lit ''/home/umesh/metanode/docs'') = None"
        by (rule that)
      show "\<And>g. g (lit ''/home/umesh/metanode'') = None \<Longrightarrow> makedirs_creates {lit ''/home/umesh/metanode'', lit ''/home/umesh'', lit ''/home''} g (lit ''/home/umesh/metanode'')"
        by (rule l3)
    qed (simp_all add: lit_def)
  qed
  have l5: "makedirs_creates {lit ''/home/umesh/metanode/docs/modules'', lit ''/home/umesh/metanode/docs'', lit ''/home/umesh/metanode'', lit ''/home/umesh'', lit ''/home''} g (lit ''/home/umesh/metanode/docs/modules'')"
    if "g (lit ''/home/umesh/metanode/docs/modules'') = None" for g
  proof -
    have ht: "head_tail (lit ''/home/umesh/metanode/docs/modules'') = (lit ''/home/umesh/metanode/docs'', lit ''modules'')"
      by code_simp
    show ?thesis
    proof (rule makedirs_creates_step [where f = g and A = "{lit ''/home/umesh/metanode/docs'', lit ''/home/umesh/metanode'', lit ''/home/umesh'', lit ''/home''}", OF ht])
      show "g (lit ''/home/umesh/metanode/docs/modules'') = None"
        by (rule that)
      show "\<And>g. g (lit ''/home/umesh/metanode/docs'') = None \<Longrightarrow> makedirs_creates {lit ''/home/umesh/metanode/docs'', lit ''/home/umesh/metanode'', lit ''/home/umesh'', lit ''/home''} g (lit ''/home/umesh/metanode/docs'')"
        by (rule l4)
    qed (simp_all add: lit_def)
  qed
  have s: "set output_ancestors = {lit ''/home/umesh/metanode/docs/modules'', lit ''/home/umesh/metanode/docs'', lit ''/home/umesh/metanode'', lit ''/home/umesh'', lit ''/home''}"
    by (auto simp: output_ancestors_def)
  show ?thesis
    using l5 [of f] assms unfolding s output_dir_def by simp
qed

text \<open>What making the output root does.\<close>

lemma ensure_output_dir_present: "f output_dir \<noteq> None \<Longrightarrow> ensure_output_dir f = (None, f)"
  by (auto simp: ensure_output_dir_def)

lemma ensure_output_dir_changes:
  "snd (ensure_output_dir f) p \<noteq> f p \<Longrightarrow>
   p \<in> set output_ancestors \<and> f p = None \<and> snd (ensure_output_dir f) p = Some Dir"
  using makedirs_creates_output_dir [of f]
  by (cases "f output_dir") (simp_all add: ensure_output_dir_def makedirs_creates_def)

lemma ensure_output_dir_done:
  "fst (ensure_output_dir f) = None \<Longrightarrow> snd (ensure_output_dir f) output_dir \<noteq> None"
  using makedirs_creates_output_dir [of f]
  by (cases "f output_dir") (simp_all add: ensure_output_dir_def makedirs_creates_def)

lemma ensure_output_dir_raised:
  "fst (ensure_output_dir f) \<noteq> None \<Longrightarrow> snd (ensure_output_dir f) = f"
  using makedirs_creates_output_dir [of f]
  by (cases "f output_dir") (simp_all add: ensure_output_dir_def makedirs_creates_def)

lemma ensure_output_dir_keeps:
  "p \<notin> set output_ancestors \<Longrightarrow> snd (ensure_output_dir f) p = f p"
  using ensure_output_dir_changes [of f p] by blast

lemma makedirs_leaf_module_dir:
  assumes "valid_id a"
  shows "makedirs_leaf f (module_dir_of a)
     = (if module_dir_ok f a then (None, f(module_dir_of a \<mapsto> Dir))
        else (Some (module_dir_error f a), f))"
  by (auto simp: makedirs_leaf_def os_mkdir_def os_path_isdir_def head_tail_module_dir [OF assms]
      module_dir_ok_def module_dir_error_def map_upd_triv
      split: option.splits node.splits)

lemma makedirs_module_dir:
  assumes "valid_id a"
  shows "os_makedirs f (module_dir_of a)
     = (if fst (ensure_output_dir f) \<noteq> None then ensure_output_dir f
        else if module_dir_ok (snd (ensure_output_dir f)) a
        then (None, (snd (ensure_output_dir f))(module_dir_of a \<mapsto> Dir))
        else (Some (module_dir_error (snd (ensure_output_dir f)) a), snd (ensure_output_dir f)))"
proof (cases "f output_dir")
  case (Some x)
  have "os_makedirs f (module_dir_of a) = makedirs_leaf f (module_dir_of a)"
    using Some
    by (subst os_makedirs.simps) (simp add: head_tail_module_dir [OF assms] os_path_exists_def)
  then show ?thesis
    using Some by (simp add: ensure_output_dir_def makedirs_leaf_module_dir [OF assms])
next
  case True: None
  obtain r f1 where rec: "os_makedirs f output_dir = (r, f1)"
    by (cases "os_makedirs f output_dir") auto
  note q = makedirs_creates_output_dir [of f, OF True, unfolded makedirs_creates_def rec fst_conv snd_conv]
  have e: "ensure_output_dir f = (r, f1)"
    using True by (simp add: ensure_output_dir_def rec)
  have a: "a \<noteq> []" "a \<noteq> lit ''.''"
    using valid_id_last [OF assms] by simp_all
  have od: "output_dir \<noteq> []"
    by (simp add: output_dir_def lit_def)
  have unfold: "os_makedirs f (module_dir_of a) = makedirs_after a (module_dir_of a) (r, f1)"
    using True a od
    by (subst os_makedirs.simps)
      (simp add: head_tail_module_dir [OF assms] os_path_exists_def rec)
  show ?thesis
  proof (cases r)
    case None
    then show ?thesis
      using a by (simp add: unfold e makedirs_after_def makedirs_leaf_module_dir [OF assms])
  next
    case (Some err)
    have nfe: "\<forall>q. err \<noteq> FileExistsError q"
      using q Some by simp
    then show ?thesis
      by (cases err) (simp_all add: unfold e Some makedirs_after_def)
  qed
qed

section \<open>The passes of the driver\<close>

lemma ensure_output_dir_entry_paths:
  "snd (ensure_output_dir f) (doc_path_of a) = f (doc_path_of a)"
  "snd (ensure_output_dir f) (readme_of a) = f (readme_of a)"
  "snd (ensure_output_dir f) (module_dir_of a) = f (module_dir_of a)"
  "snd (ensure_output_dir f) (output_file_of a) = f (output_file_of a)"
  by (simp_all add: ensure_output_dir_keeps not_output_ancestor)

lemma loop_body_effect:
  assumes "valid_id (fst entry)"
  shows "loop_body uc entry (w, n)
     = (case entry_effect uc entry (disk w) of
          (r, fs1, ls, k) \<Rightarrow> (r, w\<lparr>disk := fs1, stdout := stdout w @ ls\<rparr>, n + k))"
proof (cases entry)
  case (Pair folder_name module_info)
  then have v: "valid_id folder_name"
    using assms by simp
  note paths = join_docs_dir [OF v] join_output_dir [OF v] join_readme [OF v] join_index [OF v]
  obtain r0 f1 where ens: "ensure_output_dir (disk w) = (r0, f1)"
    by (cases "ensure_output_dir (disk w)") auto
  note keeps = ensure_output_dir_entry_paths [of "disk w", unfolded ens snd_conv]
  show ?thesis
    unfolding Pair loop_body_def entry_effect_def
    by (auto simp: paths replace_dash Let_def os_path_exists_def makedirs_module_dir [OF v]
        create_module_page_def open_read_def open_write_def print_def page_of_def
        readme_text_def line_of_def docs_not_output module_dir_not_file [OF v]
        module_dir_not_own_file head_tail_output_file [OF v] ens keeps
        lit_Nil
        split: option.splits node.splits)
qed

lemma main_loop_effect:
  "valid_table t \<Longrightarrow>
   main_loop uc t (w, n)
     = (case run_effect uc t (disk w) of
          (r, fs2, ls, k) \<Rightarrow> (r, w\<lparr>disk := fs2, stdout := stdout w @ ls\<rparr>, n + k))"
proof (induction t arbitrary: w n)
  case Nil
  then show ?case by simp
next
  case (Cons entry rest)
  then have v: "valid_id (fst entry)" and r: "valid_table rest"
    by (simp_all add: valid_table_def)
  show ?case
    by (simp add: loop_body_effect [OF v] Cons.IH [OF r] split: prod.splits option.splits)
qed

lemma main_on_effect:
  "valid_table t \<Longrightarrow>
   main_on t uc fs0
     = (case run_effect uc t fs0 of
          (r, fs2, ls, k) \<Rightarrow>
            (r, \<lparr>disk = fs2, stdout = banner @ ls @ (if r = None then closing k else [])\<rparr>))"
  by (simp add: main_on_def main_loop_effect print_def banner_def closing_def Let_def
      split: prod.splits option.splits)

lemma valid_MODULE_MAPPING: "valid_table MODULE_MAPPING"
  by code_simp

lemma main_effect:
  "main uc fs0
     = (case run_effect uc MODULE_MAPPING fs0 of
          (r, fs2, ls, k) \<Rightarrow>
            (r, \<lparr>disk = fs2, stdout = banner @ ls @ (if r = None then closing k else [])\<rparr>))"
  by (simp add: main_def main_on_effect valid_MODULE_MAPPING)

lemma absent_entry_skipped:
  assumes "valid_id folder_name" and "\<not> os_path_exists (disk w) (doc_path_of folder_name)"
  shows "loop_body uc (folder_name, module_info) (w, n)
     = (None, print ([0x26A0, 0xFE0F] @ lit ''  Missing: '' @ folder_name) w, n)"
  using assms
  by (simp add: loop_body_effect entry_effect_def line_of_def print_def os_path_exists_def)

text \<open>The five ways a pass over an entry can go.\<close>

lemma entry_effect_cases:
  assumes "entry_effect uc (a, i) fsys = (r, fs1, ls, k)"
  obtains
    (absent) "fsys (doc_path_of a) = None"
      "r = None" "fs1 = fsys" "ls = [line_of fsys (a, i)]" "k = 0"
  | (root) "fsys (doc_path_of a) \<noteq> None" "fst (ensure_output_dir fsys) \<noteq> None"
      "r = fst (ensure_output_dir fsys)" "fs1 = fsys" "ls = []" "k = 0"
  | (blocked) "fsys (doc_path_of a) \<noteq> None" "fst (ensure_output_dir fsys) = None"
      "\<not> module_dir_ok (snd (ensure_output_dir fsys)) a"
      "r = Some (module_dir_error (snd (ensure_output_dir fsys)) a)"
      "fs1 = snd (ensure_output_dir fsys)" "ls = []" "k = 0"
  | (made) "fsys (doc_path_of a) \<noteq> None" "fst (ensure_output_dir fsys) = None"
      "module_dir_ok (snd (ensure_output_dir fsys)) a"
      "fsys (readme_of a) = Some Dir \<or> fsys (readme_of a) = Some Binary
        \<or> fsys (output_file_of a) = Some Dir"
      "r = Some (if fsys (readme_of a) = Some Dir then IsADirectoryError (readme_of a)
                 else if fsys (readme_of a) = Some Binary
                 then UnicodeDecodeError (readme_of a)
                 else IsADirectoryError (output_file_of a))"
      "fs1 = (snd (ensure_output_dir fsys))(module_dir_of a \<mapsto> Dir)" "ls = []" "k = 0"
  | (written) "fsys (doc_path_of a) \<noteq> None" "fst (ensure_output_dir fsys) = None"
      "module_dir_ok (snd (ensure_output_dir fsys)) a"
      "fsys (readme_of a) \<noteq> Some Dir" "fsys (readme_of a) \<noteq> Some Binary"
      "fsys (output_file_of a) \<noteq> Some Dir"
      "r = None"
      "fs1 = (snd (ensure_output_dir fsys))
          (module_dir_of a \<mapsto> Dir, output_file_of a \<mapsto> File (page_of uc fsys (a, i)))"
      "ls = [line_of fsys (a, i)]" "k = 1"
proof -
  let ?f = "snd (ensure_output_dir fsys)"
  consider
      (1) "fsys (doc_path_of a) = None"
    | (2) "fsys (doc_path_of a) \<noteq> None" "fst (ensure_output_dir fsys) \<noteq> None"
    | (3) "fsys (doc_path_of a) \<noteq> None" "fst (ensure_output_dir fsys) = None"
        "\<not> module_dir_ok ?f a"
    | (4) "fsys (doc_path_of a) \<noteq> None" "fst (ensure_output_dir fsys) = None"
        "module_dir_ok ?f a"
        "fsys (readme_of a) = Some Dir \<or> fsys (readme_of a) = Some Binary
          \<or> fsys (output_file_of a) = Some Dir"
    | (5) "fsys (doc_path_of a) \<noteq> None" "fst (ensure_output_dir fsys) = None"
        "module_dir_ok ?f a"
        "fsys (readme_of a) \<noteq> Some Dir" "fsys (readme_of a) \<noteq> Some Binary"
        "fsys (output_file_of a) \<noteq> Some Dir"
    by blast
  then show thesis
  proof cases
    case 1
    then have "entry_effect uc (a, i) fsys = (None, fsys, [line_of fsys (a, i)], 0)"
      by (simp add: entry_effect_def)
    with assms have "r = None" "fs1 = fsys" "ls = [line_of fsys (a, i)]" "k = 0"
      by auto
    with 1 show thesis
      by (rule absent)
  next
    case 2
    have "?f = fsys"
      using 2(2) by (rule ensure_output_dir_raised)
    with 2 have "entry_effect uc (a, i) fsys = (fst (ensure_output_dir fsys), fsys, [], 0)"
      by (auto simp: entry_effect_def)
    with assms have "r = fst (ensure_output_dir fsys)" "fs1 = fsys" "ls = []" "k = 0"
      by auto
    with 2 show thesis
      by (rule root)
  next
    case 3
    then have "entry_effect uc (a, i) fsys = (Some (module_dir_error ?f a), ?f, [], 0)"
      by (auto simp: entry_effect_def)
    with assms have "r = Some (module_dir_error ?f a)" "fs1 = ?f" "ls = []" "k = 0"
      by auto
    with 3 show thesis
      by (rule blocked)
  next
    case 4
    then have "entry_effect uc (a, i) fsys
        = (Some (if fsys (readme_of a) = Some Dir then IsADirectoryError (readme_of a)
                 else if fsys (readme_of a) = Some Binary
                 then UnicodeDecodeError (readme_of a)
                 else IsADirectoryError (output_file_of a)),
           ?f(module_dir_of a \<mapsto> Dir), [], 0)"
      by (auto simp: entry_effect_def)
    with assms have
      "r = Some (if fsys (readme_of a) = Some Dir then IsADirectoryError (readme_of a)
                 else if fsys (readme_of a) = Some Binary
                 then UnicodeDecodeError (readme_of a)
                 else IsADirectoryError (output_file_of a))"
      "fs1 = ?f(module_dir_of a \<mapsto> Dir)" "ls = []" "k = 0"
      by auto
    with 4 show thesis
      by (rule made)
  next
    case 5
    then have "entry_effect uc (a, i) fsys
        = (None,
           ?f(module_dir_of a \<mapsto> Dir, output_file_of a \<mapsto> File (page_of uc fsys (a, i))),
           [line_of fsys (a, i)], 1)"
      by (auto simp: entry_effect_def)
    with assms have "r = None"
      "fs1 = ?f(module_dir_of a \<mapsto> Dir, output_file_of a \<mapsto> File (page_of uc fsys (a, i)))"
      "ls = [line_of fsys (a, i)]" "k = 1"
      by auto
    with 5 show thesis
      by (rule written)
  qed
qed

lemma entry_effect_docs:
  assumes "entry_effect uc entry fsys = (r, fs1, ls, k)"
  shows "fs1 (doc_path_of b) = fsys (doc_path_of b) \<and> fs1 (readme_of b) = fsys (readme_of b)"
proof (cases entry)
  case (Pair a i)
  from assms [unfolded Pair] show ?thesis
    by (cases rule: entry_effect_cases)
      (simp_all add: docs_not_output ensure_output_dir_entry_paths)
qed

text \<open>
  What one pass changes: the output file of its entry, or a place where nothing was
  and a directory is now, the module directory of the entry or the output root or a
  directory above it.
\<close>

lemma entry_effect_frame:
  assumes "entry_effect uc entry fsys = (r, fs1, ls, k)" and "fs1 p \<noteq> fsys p"
  shows "fsys (doc_path_of (fst entry)) \<noteq> None
     \<and> (p = output_file_of (fst entry)
        \<or> fsys p = None \<and> fs1 p = Some Dir
          \<and> (p = module_dir_of (fst entry) \<or> p \<in> set output_ancestors))"
proof (cases entry)
  case (Pair a i)
  note ch = ensure_output_dir_changes [of fsys p]
  have md: "fsys (module_dir_of a) = None \<or> fsys (module_dir_of a) = Some Dir"
    if "module_dir_ok (snd (ensure_output_dir fsys)) a"
    using that by (auto simp: module_dir_ok_def ensure_output_dir_entry_paths)
  from assms(1) [unfolded Pair]
  have "fsys (doc_path_of a) \<noteq> None
     \<and> (p = output_file_of a
        \<or> fsys p = None \<and> fs1 p = Some Dir
          \<and> (p = module_dir_of a \<or> p \<in> set output_ancestors))"
  proof (cases rule: entry_effect_cases)
    case absent
    with assms(2) show ?thesis
      by simp
  next
    case root
    with assms(2) show ?thesis
      by simp
  next
    case blocked
    with assms(2) ch show ?thesis
      by simp
  next
    case made
    show ?thesis
    proof (cases "p = module_dir_of a")
      case True
      with made(1,6) assms(2) md [OF made(3)] show ?thesis
        by auto
    next
      case False
      with made(1,6) assms(2) ch show ?thesis
        by simp
    qed
  next
    case written
    show ?thesis
    proof (cases "p = output_file_of a")
      case True
      with written(1) show ?thesis
        by simp
    next
      case nf: False
      show ?thesis
      proof (cases "p = module_dir_of a")
        case True
        with written(1,8) assms(2) md [OF written(3)] nf show ?thesis
          by auto
      next
        case False
        with written(1,8) assms(2) ch nf show ?thesis
          by simp
      qed
    qed
  qed
  then show ?thesis
    by (simp add: Pair)
qed

lemma run_effect_docs:
  "run_effect uc t fsys = (r, fs2, ls, k) \<Longrightarrow>
   fs2 (doc_path_of b) = fsys (doc_path_of b) \<and> fs2 (readme_of b) = fsys (readme_of b)"
proof (induction t arbitrary: fsys r fs2 ls k)
  case Nil
  then show ?case by simp
next
  case (Cons entry rest)
  obtain r1 fs1 ls1 k1 where e: "entry_effect uc entry fsys = (r1, fs1, ls1, k1)"
    by (cases "entry_effect uc entry fsys") auto
  note d = entry_effect_docs [OF e, of b]
  show ?case
  proof (cases r1)
    case None
    obtain r' fs' ls' k' where s: "run_effect uc rest fs1 = (r', fs', ls', k')"
      by (cases "run_effect uc rest fs1") auto
    with Cons.prems e None have "fs2 = fs'"
      by simp
    with Cons.IH [OF s] d show ?thesis
      by simp
  next
    case (Some err)
    with Cons.prems e have "fs2 = fs1"
      by simp
    with d show ?thesis
      by simp
  qed
qed

lemma run_effect_frame:
  "run_effect uc t fsys = (r, fs2, ls, k) \<Longrightarrow> fs2 p \<noteq> fsys p \<Longrightarrow>
   (\<exists>e \<in> set t. fsys (doc_path_of (fst e)) \<noteq> None
      \<and> (p = module_dir_of (fst e) \<or> p = output_file_of (fst e)))
   \<or> fsys p = None \<and> p \<in> set output_ancestors"
proof (induction t arbitrary: fsys r fs2 ls k)
  case Nil
  then show ?case by simp
next
  case (Cons entry rest)
  obtain r1 fs1 ls1 k1 where e: "entry_effect uc entry fsys = (r1, fs1, ls1, k1)"
    by (cases "entry_effect uc entry fsys") auto
  have first: ?case if "fs1 p \<noteq> fsys p"
    using entry_effect_frame [OF e that] by auto
  show ?case
  proof (cases r1)
    case (Some err)
    with Cons.prems(1) e have "fs2 = fs1"
      by simp
    with Cons.prems(2) first show ?thesis
      by simp
  next
    case None
    obtain r' fs' ls' k' where s: "run_effect uc rest fs1 = (r', fs', ls', k')"
      by (cases "run_effect uc rest fs1") auto
    with Cons.prems(1) e None have eq: "fs2 = fs'"
      by simp
    show ?thesis
    proof (cases "fs1 p = fsys p")
      case False
      then show ?thesis
        by (rule first)
    next
      case True
      with Cons.prems(2) eq have "fs' p \<noteq> fs1 p"
        by simp
      from Cons.IH [OF s this] show ?thesis
        using entry_effect_docs [OF e] True by auto
    qed
  qed
qed

text \<open>The paths of one entry are out of the reach of another.\<close>

lemma other_entry_paths:
  assumes "valid_id a" and "valid_id b" and "a \<noteq> b"
  shows "module_dir_of b \<noteq> module_dir_of a \<and> module_dir_of b \<noteq> output_file_of a
       \<and> output_file_of b \<noteq> module_dir_of a \<and> output_file_of b \<noteq> output_file_of a"
  using assms by (simp add: module_dir_inject output_file_inject module_dir_not_file)

lemma run_effect_keeps:
  assumes s: "run_effect uc rest fs1 = (r, fs', ls, k)"
  shows "valid_id a \<Longrightarrow> \<forall>e \<in> set rest. valid_id (fst e) \<and> a \<noteq> fst e \<Longrightarrow>
           fs' (module_dir_of a) = fs1 (module_dir_of a)
           \<and> fs' (output_file_of a) = fs1 (output_file_of a)"
    and "fs1 output_dir \<noteq> None \<Longrightarrow> fs' output_dir = fs1 output_dir"
proof -
  have own: "fs' p = fs1 p"
    if v: "valid_id a" and o: "\<forall>e \<in> set rest. valid_id (fst e) \<and> a \<noteq> fst e"
      and p: "p = module_dir_of a \<or> p = output_file_of a" for p
  proof (rule ccontr)
    assume "fs' p \<noteq> fs1 p"
    from run_effect_frame [OF s this] p
    obtain e where m: "e \<in> set rest"
      and q: "p = module_dir_of (fst e) \<or> p = output_file_of (fst e)"
      by (auto simp: not_output_ancestor)
    from o m have "valid_id (fst e)" and "a \<noteq> fst e"
      by auto
    from other_entry_paths [OF v this] p q show False
      by auto
  qed
  show "fs' (module_dir_of a) = fs1 (module_dir_of a)
      \<and> fs' (output_file_of a) = fs1 (output_file_of a)"
    if "valid_id a" and "\<forall>e \<in> set rest. valid_id (fst e) \<and> a \<noteq> fst e"
    using own [OF that] by simp
  show "fs' output_dir = fs1 output_dir" if n: "fs1 output_dir \<noteq> None"
  proof (rule ccontr)
    assume "fs' output_dir \<noteq> fs1 output_dir"
    from run_effect_frame [OF s this] n show False
      by (auto simp: output_dir_not_entry_path)
  qed
qed

lemma page_of_cong:
  "f (readme_of (fst entry)) = g (readme_of (fst entry)) \<Longrightarrow> page_of uc f entry = page_of uc g entry"
  by (cases entry) (simp add: page_of_def readme_text_def)

lemma line_of_cong:
  "f (doc_path_of (fst entry)) = g (doc_path_of (fst entry)) \<Longrightarrow> line_of f entry = line_of g entry"
  by (cases entry) (simp add: line_of_def)

lemma entry_effect_None_iff:
  "(fst (entry_effect uc entry fsys) = None) = entry_ok fsys (fst entry)"
  by (cases entry) (auto simp: entry_effect_def entry_ok_def)

text \<open>What a pass without an exception leaves, for an entry whose source folder is there.\<close>

lemma entry_effect_present:
  assumes "entry_effect uc (a, i) fsys = (None, fs1, ls, k)"
    and "fsys (doc_path_of a) \<noteq> None"
  shows "fst (ensure_output_dir fsys) = None"
    and "module_dir_ok (snd (ensure_output_dir fsys)) a"
    and "fs1 = (snd (ensure_output_dir fsys))
            (module_dir_of a \<mapsto> Dir, output_file_of a \<mapsto> File (page_of uc fsys (a, i)))"
    and "ls = [line_of fsys (a, i)]" and "k = 1"
    and "fs1 output_dir \<noteq> None"
    and "ensure_output_dir fs1 = (None, fs1)"
    and "fsys (readme_of a) \<noteq> Some Dir" and "fsys (readme_of a) \<noteq> Some Binary"
proof -
  from assms(1)
  have all: "fst (ensure_output_dir fsys) = None
    \<and> module_dir_ok (snd (ensure_output_dir fsys)) a
    \<and> fs1 = (snd (ensure_output_dir fsys))
            (module_dir_of a \<mapsto> Dir, output_file_of a \<mapsto> File (page_of uc fsys (a, i)))
    \<and> ls = [line_of fsys (a, i)] \<and> k = 1
    \<and> fsys (readme_of a) \<noteq> Some Dir \<and> fsys (readme_of a) \<noteq> Some Binary"
  proof (cases rule: entry_effect_cases)
    case absent
    with assms(2) show ?thesis
      by simp
  next
    case root
    then show ?thesis
      by simp
  next
    case blocked
    then show ?thesis
      by simp
  next
    case made
    then show ?thesis
      by simp
  next
    case written
    then show ?thesis
      by simp
  qed
  then show ok: "fst (ensure_output_dir fsys) = None"
    and "module_dir_ok (snd (ensure_output_dir fsys)) a"
    and f: "fs1 = (snd (ensure_output_dir fsys))
            (module_dir_of a \<mapsto> Dir, output_file_of a \<mapsto> File (page_of uc fsys (a, i)))"
    and "ls = [line_of fsys (a, i)]" and "k = 1"
    and "fsys (readme_of a) \<noteq> Some Dir" and "fsys (readme_of a) \<noteq> Some Binary"
    by simp_all
  have "snd (ensure_output_dir fsys) output_dir \<noteq> None"
    using ok by (rule ensure_output_dir_done)
  then show "fs1 output_dir \<noteq> None"
    by (simp add: f output_dir_not_entry_path)
  then show "ensure_output_dir fs1 = (None, fs1)"
    by (rule ensure_output_dir_present)
qed

lemma entry_effect_absent:
  assumes "entry_effect uc (a, i) fsys = (r, fs1, ls, k)"
    and "fsys (doc_path_of a) = None"
  shows "r = None \<and> fs1 = fsys \<and> ls = [line_of fsys (a, i)] \<and> k = 0"
  using assms by (auto simp: entry_effect_def)

lemma entry_effect_ok:
  assumes "entry_effect uc entry fsys = (None, fs1, ls, k)"
  shows "ls = [line_of fsys entry]
    \<and> (fsys (doc_path_of (fst entry)) \<noteq> None \<longrightarrow>
         k = 1 \<and> fs1 (module_dir_of (fst entry)) = Some Dir
         \<and> fs1 (output_file_of (fst entry)) = Some (File (page_of uc fsys entry)))
    \<and> (fsys (doc_path_of (fst entry)) = None \<longrightarrow> k = 0 \<and> fs1 = fsys)"
proof (cases entry)
  case (Pair a i)
  note e = assms [unfolded Pair]
  show ?thesis
  proof (cases "fsys (doc_path_of a) = None")
    case True
    with entry_effect_absent [OF e True] show ?thesis
      by (simp add: Pair)
  next
    case False
    note p = entry_effect_present [OF e False]
    show ?thesis
      using False by (simp add: Pair p(3,4,5) module_dir_not_own_file)
  qed
qed

lemma entry_ok_after:
  assumes e: "entry_effect uc entry fsys = (None, fs1, ls, k)"
    and v: "valid_id (fst entry)" "valid_id b" "fst entry \<noteq> b"
  shows "entry_ok fs1 b = entry_ok fsys b"
proof (cases entry)
  case (Pair a i)
  note e' = e [unfolded Pair]
  show ?thesis
  proof (cases "fsys (doc_path_of a) = None")
    case True
    with entry_effect_absent [OF e' True] show ?thesis
      by simp
  next
    case False
    note p = entry_effect_present [OF e' False]
    note o = other_entry_paths [of a b] v [unfolded Pair fst_conv]
    have m: "fs1 (module_dir_of b) = snd (ensure_output_dir fsys) (module_dir_of b)"
      and f: "fs1 (output_file_of b) = fsys (output_file_of b)"
      and od: "fs1 output_dir = snd (ensure_output_dir fsys) output_dir"
      using o by (simp_all add: p(3) ensure_output_dir_entry_paths output_dir_not_entry_path)
    have d: "fs1 (doc_path_of b) = fsys (doc_path_of b)"
      and rd: "fs1 (readme_of b) = fsys (readme_of b)"
      using entry_effect_docs [OF e, of b] by simp_all
    have "module_dir_ok fs1 b = module_dir_ok (snd (ensure_output_dir fsys)) b"
      by (simp add: module_dir_ok_def m od)
    then show ?thesis
      by (simp add: entry_ok_def p(1,7) d rd f)
  qed
qed

text \<open>A pass on the file system the same pass left gives its result again.\<close>

lemma entry_effect_again_raised:
  assumes "entry_effect uc entry fsys = (Some err, fs1, ls, k)"
  shows "entry_effect uc entry fs1 = (Some err, fs1, ls, k)"
proof (cases entry)
  case (Pair a i)
  let ?f = "snd (ensure_output_dir fsys)"
  note docs = entry_effect_docs [OF assms, of a]
  have rd: "fs1 (readme_of a) = fsys (readme_of a)"
    using docs by simp
  from assms [unfolded Pair] have "entry_effect uc (a, i) fs1 = (Some err, fs1, ls, k)"
  proof (cases rule: entry_effect_cases)
    case absent
    then show ?thesis
      by simp
  next
    case root
    with assms show ?thesis
      by (simp add: Pair)
  next
    case blocked
    have d1: "fs1 (doc_path_of a) \<noteq> None"
      using docs blocked(1) by simp
    have f: "?f = fs1"
      using blocked(5) by simp
    have "?f output_dir \<noteq> None"
      using blocked(2) by (rule ensure_output_dir_done)
    then have "fs1 output_dir \<noteq> None"
      unfolding f .
    then have en: "ensure_output_dir fs1 = (None, fs1)"
      by (rule ensure_output_dir_present)
    have nb: "\<not> module_dir_ok fs1 a"
      using blocked(3) unfolding f .
    have r': "err = module_dir_error fs1 a"
      using blocked(4) unfolding f by simp
    show ?thesis
      using d1 nb by (auto simp: entry_effect_def en r' blocked(6,7))
  next
    case made
    have d1: "fs1 (doc_path_of a) \<noteq> None"
      using docs made(1) by simp
    note f = made(6)
    have "?f output_dir \<noteq> None"
      using made(2) by (rule ensure_output_dir_done)
    then have "fs1 output_dir \<noteq> None"
      by (simp add: f output_dir_not_entry_path)
    then have en: "ensure_output_dir fs1 = (None, fs1)"
      by (rule ensure_output_dir_present)
    have m: "fs1 (module_dir_of a) = Some Dir"
      by (simp add: f)
    then have u: "fs1(module_dir_of a \<mapsto> Dir) = fs1"
      by (rule map_upd_triv)
    have ok: "module_dir_ok fs1 a"
      using m by (simp add: module_dir_ok_def)
    have o: "fs1 (output_file_of a) = fsys (output_file_of a)"
      by (simp add: f module_dir_not_own_file ensure_output_dir_entry_paths)
    have err: "err = (if fsys (readme_of a) = Some Dir then IsADirectoryError (readme_of a)
                 else if fsys (readme_of a) = Some Binary
                 then UnicodeDecodeError (readme_of a)
                 else IsADirectoryError (output_file_of a))"
      using made(5) by simp
    show ?thesis
      using d1 ok made(4) by (auto simp: entry_effect_def en u rd o err made(7,8))
  next
    case written
    then show ?thesis
      by simp
  qed
  then show ?thesis
    by (simp add: Pair)
qed

lemma entry_effect_again:
  assumes "entry_effect uc entry fsys = (None, fs1, ls, k)"
    and "g (doc_path_of (fst entry)) = fs1 (doc_path_of (fst entry))"
    and "g (readme_of (fst entry)) = fs1 (readme_of (fst entry))"
    and "g (module_dir_of (fst entry)) = fs1 (module_dir_of (fst entry))"
    and "g (output_file_of (fst entry)) = fs1 (output_file_of (fst entry))"
    and "fsys (doc_path_of (fst entry)) \<noteq> None \<longrightarrow> g output_dir = fs1 output_dir"
  shows "entry_effect uc entry g = (None, g, ls, k)"
proof (cases entry)
  case (Pair a i)
  note e = assms(1) [unfolded Pair]
  note docs = entry_effect_docs [OF assms(1), of a]
  have gd: "g (doc_path_of a) = fsys (doc_path_of a)"
    using assms(2) docs by (simp add: Pair)
  have gr: "g (readme_of a) = fsys (readme_of a)"
    using assms(3) docs by (simp add: Pair)
  have gm: "g (module_dir_of a) = fs1 (module_dir_of a)"
    using assms(4) by (simp add: Pair)
  have go: "g (output_file_of a) = fs1 (output_file_of a)"
    using assms(5) by (simp add: Pair)
  have pg: "page_of uc g (a, i) = page_of uc fsys (a, i)"
    using page_of_cong [of g "(a, i)" fsys] gr by simp
  have ln: "line_of g (a, i) = line_of fsys (a, i)"
    using line_of_cong [of g "(a, i)" fsys] gd by simp
  show ?thesis
  proof (cases "fsys (doc_path_of a) = None")
    case True
    with entry_effect_absent [OF e True] show ?thesis
      using gd ln by (simp add: Pair entry_effect_def)
  next
    case False
    note p = entry_effect_present [OF e False]
    have "g output_dir \<noteq> None"
      using assms(6) False p(6) by (simp add: Pair)
    then have en: "ensure_output_dir g = (None, g)"
      by (rule ensure_output_dir_present)
    have m: "g (module_dir_of a) = Some Dir"
      using gm by (simp add: p(3) module_dir_not_own_file)
    have o: "g (output_file_of a) = Some (File (page_of uc fsys (a, i)))"
      using go by (simp add: p(3))
    have "g(module_dir_of a \<mapsto> Dir) = g"
      using m by (rule map_upd_triv)
    moreover have "g(output_file_of a \<mapsto> File (page_of uc fsys (a, i))) = g"
      using o by (rule map_upd_triv)
    ultimately show ?thesis
      using False gd gr m o pg ln p(4,5,8,9)
      by (auto simp: Pair entry_effect_def en module_dir_ok_def)
  qed
qed

lemma valid_table_Cons:
  assumes "valid_table (entry # rest)"
  shows "valid_id (fst entry)" and "valid_table rest"
    and "\<forall>e \<in> set rest. valid_id (fst e) \<and> fst entry \<noteq> fst e"
proof -
  show "valid_id (fst entry)" and "valid_table rest"
    using assms by (auto simp: valid_table_def list_all_iff)
  show "\<forall>e \<in> set rest. valid_id (fst e) \<and> fst entry \<noteq> fst e"
  proof
    fix e
    assume m: "e \<in> set rest"
    then have i: "fst e \<in> fst ` set rest"
      by (rule imageI)
    have n: "fst entry \<notin> fst ` set rest" and ve: "valid_id (fst e)"
      using assms m by (simp_all add: valid_table_def list_all_iff)
    have "fst entry \<noteq> fst e"
    proof
      assume "fst entry = fst e"
      with i have "fst entry \<in> fst ` set rest"
        by (simp only:)
      with n show False ..
    qed
    with ve show "valid_id (fst e) \<and> fst entry \<noteq> fst e" ..
  qed
qed

lemma run_effect_again:
  "valid_table t \<Longrightarrow> run_effect uc t fsys = (r, fs2, ls, k) \<Longrightarrow>
   run_effect uc t fs2 = (r, fs2, ls, k)"
proof (induction t arbitrary: fsys r fs2 ls k)
  case Nil
  then show ?case by simp
next
  case (Cons entry rest)
  note v = valid_table_Cons [OF Cons.prems(1)]
  obtain r1 fs1 ls1 k1 where e: "entry_effect uc entry fsys = (r1, fs1, ls1, k1)"
    by (cases "entry_effect uc entry fsys") auto
  show ?case
  proof (cases r1)
    case (Some err)
    with Cons.prems(2) e have eq: "r = Some err" "fs2 = fs1" "ls = ls1" "k = k1"
      by simp_all
    have "entry_effect uc entry fs1 = (Some err, fs1, ls1, k1)"
      by (rule entry_effect_again_raised [OF e [unfolded Some]])
    then show ?thesis
      by (simp add: eq)
  next
    case None
    note e' = e [unfolded None]
    obtain r' fs' ls' k' where s: "run_effect uc rest fs1 = (r', fs', ls', k')"
      by (cases "run_effect uc rest fs1") auto
    with Cons.prems(2) e None have eq: "r = r'" "fs2 = fs'" "ls = ls1 @ ls'" "k = k1 + k'"
      by simp_all
    note keeps = run_effect_keeps [OF s]
    have d: "fs' (doc_path_of (fst entry)) = fs1 (doc_path_of (fst entry))"
      and rd: "fs' (readme_of (fst entry)) = fs1 (readme_of (fst entry))"
      using run_effect_docs [OF s, of "fst entry"] by simp_all
    have m: "fs' (module_dir_of (fst entry)) = fs1 (module_dir_of (fst entry))"
      and o: "fs' (output_file_of (fst entry)) = fs1 (output_file_of (fst entry))"
      using keeps(1) [OF v(1,3)] by simp_all
    have od: "fsys (doc_path_of (fst entry)) \<noteq> None \<longrightarrow> fs' output_dir = fs1 output_dir"
    proof
      assume "fsys (doc_path_of (fst entry)) \<noteq> None"
      then have "fs1 output_dir \<noteq> None"
        using entry_effect_present(6) [of uc "fst entry" "snd entry" fsys fs1 ls1 k1] e'
        by simp
      then show "fs' output_dir = fs1 output_dir"
        by (rule keeps(2))
    qed
    have "entry_effect uc entry fs' = (None, fs', ls1, k1)"
      by (rule entry_effect_again [OF e' d rd m o od])
    moreover have "run_effect uc rest fs' = (r', fs', ls', k')"
      by (rule Cons.IH [OF v(2) s])
    ultimately show ?thesis
      by (simp add: eq)
  qed
qed


lemma valid_table_id: "valid_table t \<Longrightarrow> e \<in> set t \<Longrightarrow> valid_id (fst e)"
  by (simp add: valid_table_def list_all_iff)

text \<open>
  A run that ends without an exception: what it prints, what it counts, and what it
  leaves for each entry.
\<close>

lemma run_effect_complete:
  "valid_table t \<Longrightarrow> run_effect uc t fsys = (None, fs2, ls, k) \<Longrightarrow>
   ls = map (line_of fsys) t
   \<and> k = int (length (filter (\<lambda>e. fsys (doc_path_of (fst e)) \<noteq> None) t))
   \<and> (\<forall>e \<in> set t. entry_ok fsys (fst e)
        \<and> (fsys (doc_path_of (fst e)) \<noteq> None \<longrightarrow>
             fs2 (module_dir_of (fst e)) = Some Dir
             \<and> fs2 (output_file_of (fst e)) = Some (File (page_of uc fsys e))))"
proof (induction t arbitrary: fsys fs2 ls k)
  case Nil
  then show ?case by simp
next
  case (Cons entry rest)
  note v = valid_table_Cons [OF Cons.prems(1)]
  obtain r1 fs1 ls1 k1 where e0: "entry_effect uc entry fsys = (r1, fs1, ls1, k1)"
    by (cases "entry_effect uc entry fsys") auto
  obtain r' fs' ls' k' where s0: "run_effect uc rest fs1 = (r', fs', ls', k')"
    by (cases "run_effect uc rest fs1") auto
  have r1: "r1 = None"
    using Cons.prems(2) e0 by (cases r1) simp_all
  note e = e0 [unfolded r1]
  have eq: "r' = None" "fs2 = fs'" "ls = ls1 @ ls'" "k = k1 + k'"
    using Cons.prems(2) e s0 by simp_all
  note s = s0 [unfolded eq(1)]
  note ih = Cons.IH [OF v(2) s]
  note ok = entry_effect_ok [OF e]
  have docs: "\<And>b. fs1 (doc_path_of b) = fsys (doc_path_of b)"
    "\<And>b. fs1 (readme_of b) = fsys (readme_of b)"
    using entry_effect_docs [OF e] by simp_all
  have lines: "map (line_of fs1) rest = map (line_of fsys) rest"
    by (intro map_cong refl line_of_cong docs)
  have count: "filter (\<lambda>e. fs1 (doc_path_of (fst e)) \<noteq> None) rest
      = filter (\<lambda>e. fsys (doc_path_of (fst e)) \<noteq> None) rest"
    by (simp add: docs)
  have k1: "k1 = (if fsys (doc_path_of (fst entry)) \<noteq> None then 1 else 0)"
    using ok by auto
  note own = run_effect_keeps(1) [OF s v(1,3)]
  have first: "entry_ok fsys (fst entry)
      \<and> (fsys (doc_path_of (fst entry)) \<noteq> None \<longrightarrow>
           fs2 (module_dir_of (fst entry)) = Some Dir
           \<and> fs2 (output_file_of (fst entry)) = Some (File (page_of uc fsys entry)))"
  proof -
    have "fst (entry_effect uc entry fsys) = None"
      by (simp add: e)
    then have "entry_ok fsys (fst entry)"
      by (simp only: entry_effect_None_iff)
    then show ?thesis
      using ok own by (simp add: eq(2))
  qed
  have others: "entry_ok fsys (fst e')
      \<and> (fsys (doc_path_of (fst e')) \<noteq> None \<longrightarrow>
           fs2 (module_dir_of (fst e')) = Some Dir
           \<and> fs2 (output_file_of (fst e')) = Some (File (page_of uc fsys e')))"
    if m: "e' \<in> set rest" for e'
  proof -
    from v(3) m have ve: "valid_id (fst e')" and ne: "fst entry \<noteq> fst e'"
      by auto
    have "entry_ok fs1 (fst e') = entry_ok fsys (fst e')"
      by (rule entry_ok_after [OF e v(1) ve ne])
    moreover have "page_of uc fs1 e' = page_of uc fsys e'"
      by (intro page_of_cong docs)
    ultimately show ?thesis
      using ih m docs unfolding eq(2) by simp
  qed
  show ?case
    using ih first others k1 lines count by (simp add: eq ok)
qed

text \<open>
  Outside the module directories and the output files of the entries whose source
  folder is there, a run that ends without an exception leaves the file system as
  making the output root leaves it, or as it was when no source folder is there.
\<close>

lemma run_effect_elsewhere:
  "valid_table t \<Longrightarrow> run_effect uc t fsys = (None, fs2, ls, k) \<Longrightarrow>
   \<forall>e \<in> set t. fsys (doc_path_of (fst e)) \<noteq> None \<longrightarrow>
      p \<noteq> module_dir_of (fst e) \<and> p \<noteq> output_file_of (fst e) \<Longrightarrow>
   fs2 p = (if \<exists>e \<in> set t. fsys (doc_path_of (fst e)) \<noteq> None
            then snd (ensure_output_dir fsys) p else fsys p)"
proof (induction t arbitrary: fsys fs2 ls k)
  case Nil
  then show ?case by simp
next
  case (Cons entry rest)
  note v = valid_table_Cons [OF Cons.prems(1)]
  obtain a i where Pair: "entry = (a, i)"
    by (cases entry) auto
  obtain r1 fs1 ls1 k1 where e0: "entry_effect uc entry fsys = (r1, fs1, ls1, k1)"
    by (cases "entry_effect uc entry fsys") auto
  obtain r' fs' ls' k' where s0: "run_effect uc rest fs1 = (r', fs', ls', k')"
    by (cases "run_effect uc rest fs1") auto
  have r1: "r1 = None"
    using Cons.prems(2) e0 by (cases r1) simp_all
  note e = e0 [unfolded r1]
  have eq: "r' = None" "fs2 = fs'"
    using Cons.prems(2) e s0 by simp_all
  note s = s0 [unfolded eq(1)]
  have docs: "\<And>b. fs1 (doc_path_of b) = fsys (doc_path_of b)"
    using entry_effect_docs [OF e] by simp
  have rest: "\<forall>e \<in> set rest. fs1 (doc_path_of (fst e)) \<noteq> None \<longrightarrow>
      p \<noteq> module_dir_of (fst e) \<and> p \<noteq> output_file_of (fst e)"
    using Cons.prems(3) by (simp add: docs)
  note ih = Cons.IH [OF v(2) s rest, unfolded docs]
  show ?case
  proof (cases "fsys (doc_path_of a) = None")
    case True
    have "fs1 = fsys"
      using entry_effect_absent [OF e [unfolded Pair] True] by simp
    with ih True show ?thesis
      by (simp add: eq(2) Pair)
  next
    case False
    note p = entry_effect_present [OF e [unfolded Pair] False]
    have "p \<noteq> module_dir_of a \<and> p \<noteq> output_file_of a"
      using Cons.prems(3) False by (simp add: Pair)
    then have "fs1 p = snd (ensure_output_dir fsys) p"
      by (simp add: p(3))
    moreover have "snd (ensure_output_dir fs1) = fs1"
      by (simp add: p(7))
    ultimately show ?thesis
      using ih False by (simp add: eq(2) Pair)
  qed
qed

text \<open>What a run that ends without an exception has changed.\<close>

lemma run_effect_changes:
  assumes "valid_table t" and "run_effect uc t fsys = (None, fs2, ls, k)"
    and "fs2 p \<noteq> fsys p"
  shows "(\<exists>e \<in> set t. fsys (doc_path_of (fst e)) \<noteq> None \<and> p = output_file_of (fst e))
     \<or> fsys p = None \<and> fs2 p = Some Dir
       \<and> (p \<in> set output_ancestors
          \<or> (\<exists>e \<in> set t. fsys (doc_path_of (fst e)) \<noteq> None \<and> p = module_dir_of (fst e)))"
proof (cases "\<exists>e \<in> set t. fsys (doc_path_of (fst e)) \<noteq> None
    \<and> (p = module_dir_of (fst e) \<or> p = output_file_of (fst e))")
  case True
  then obtain e where e: "e \<in> set t" "fsys (doc_path_of (fst e)) \<noteq> None"
    and p: "p = module_dir_of (fst e) \<or> p = output_file_of (fst e)"
    by blast
  show ?thesis
  proof (cases "p = output_file_of (fst e)")
    case True
    have "\<exists>e \<in> set t. fsys (doc_path_of (fst e)) \<noteq> None \<and> p = output_file_of (fst e)"
      using e True by (intro bexI [of _ e] conjI)
    then show ?thesis ..
  next
    case False
    with p have pm: "p = module_dir_of (fst e)"
      by simp
    from run_effect_complete [OF assms(1,2)] e
    have ok: "entry_ok fsys (fst e)" and d: "fs2 (module_dir_of (fst e)) = Some Dir"
      by simp_all
    from ok e(2) have "module_dir_ok (snd (ensure_output_dir fsys)) (fst e)"
      by (simp add: entry_ok_def)
    then have "fsys (module_dir_of (fst e)) = None \<or> fsys (module_dir_of (fst e)) = Some Dir"
      by (auto simp: module_dir_ok_def ensure_output_dir_entry_paths)
    with assms(3) d pm have c: "fsys p = None \<and> fs2 p = Some Dir"
      by auto
    have "\<exists>e \<in> set t. fsys (doc_path_of (fst e)) \<noteq> None \<and> p = module_dir_of (fst e)"
      using e pm by (intro bexI [of _ e] conjI)
    with c show ?thesis
      by (simp only: simp_thms)
  qed
next
  case False
  then have f: "\<forall>e \<in> set t. fsys (doc_path_of (fst e)) \<noteq> None \<longrightarrow>
      p \<noteq> module_dir_of (fst e) \<and> p \<noteq> output_file_of (fst e)"
    by blast
  note el = run_effect_elsewhere [OF assms(1,2) f]
  have "snd (ensure_output_dir fsys) p \<noteq> fsys p \<and> fs2 p = snd (ensure_output_dir fsys) p"
    using el assms(3) by (simp split: if_splits)
  with ensure_output_dir_changes [of fsys p] show ?thesis
    by simp
qed



text \<open>A run leaves alone the module directory and the output file of an absent entry.\<close>

lemma run_effect_absent:
  assumes "valid_table t" and "run_effect uc t fsys = (r, fs2, ls, k)"
    and "e \<in> set t" and "fsys (doc_path_of (fst e)) = None"
  shows "fs2 (module_dir_of (fst e)) = fsys (module_dir_of (fst e))
       \<and> fs2 (output_file_of (fst e)) = fsys (output_file_of (fst e))"
proof -
  have "fs2 p = fsys p" if p: "p = module_dir_of (fst e) \<or> p = output_file_of (fst e)" for p
  proof (rule ccontr)
    assume "fs2 p \<noteq> fsys p"
    from run_effect_frame [OF assms(2) this] p
    obtain e' where m: "e' \<in> set t" and pr: "fsys (doc_path_of (fst e')) \<noteq> None"
      and q: "p = module_dir_of (fst e') \<or> p = output_file_of (fst e')"
      by (auto simp: not_output_ancestor)
    have "fst e \<noteq> fst e'"
      using pr assms(4) by auto
    from other_entry_paths [OF valid_table_id [OF assms(1,3)] valid_table_id [OF assms(1) m] this]
      p q
    show False
      by auto
  qed
  then show ?thesis
    by simp
qed

text \<open>
  A document that is not UTF-8 ends the run at its module, after the output directory
  of the module is made and before its page is written.
\<close>

lemma main_undecodable_document:
  "fst (main ascii_uc binary_fs)
     = Some (UnicodeDecodeError (lit ''/home/umesh/documentation/02-toolkit/README.md''))
   \<and> disk (snd (main ascii_uc binary_fs))
         (lit ''/home/umesh/metanode/docs/modules/02-toolkit'') = Some Dir
   \<and> disk (snd (main ascii_uc binary_fs))
         (lit ''/home/umesh/metanode/docs/modules/02-toolkit/index.html'') = None"
proof (intro conjI)
  show "fst (main ascii_uc binary_fs)
     = Some (UnicodeDecodeError (lit ''/home/umesh/documentation/02-toolkit/README.md''))"
    by code_simp
  show "disk (snd (main ascii_uc binary_fs))
         (lit ''/home/umesh/metanode/docs/modules/02-toolkit'') = Some Dir"
    by code_simp
  show "disk (snd (main ascii_uc binary_fs))
         (lit ''/home/umesh/metanode/docs/modules/02-toolkit/index.html'') = None"
    by code_simp
qed

section \<open>Runs of the driver\<close>

text \<open>
  C2. When the run ends without an exception: for an entry of the table whose source
  folder exists, the file \<^verbatim>\<open>index.html\<close> under the output directory of the entry holds
  its page; for an entry whose source folder is absent, neither that file nor that
  directory is touched and the warning line is printed. The only files the run writes
  are the output files of the entries whose source folder exists: whatever else it
  changes is a directory made where nothing was, the output root or a directory above
  it or the output directory of such an entry. The console shows the banner, one line
  for each entry in the order of the table, and the closing lines with the number of
  the entries whose source folder exists. For an absent source folder the loop body
  prints the warning and raises nothing, in any run.
\<close>

theorem main_outputs:
  assumes "fst (main uc fs0) = None"
    and "(folder_name, module_info) \<in> set MODULE_MAPPING"
  shows "(os_path_exists fs0 (doc_path_of folder_name) \<longrightarrow>
            disk (snd (main uc fs0)) (output_file_of folder_name)
              = Some (File (page_of uc fs0 (folder_name, module_info))))
    \<and> (\<not> os_path_exists fs0 (doc_path_of folder_name) \<longrightarrow>
            disk (snd (main uc fs0)) (output_file_of folder_name) = fs0 (output_file_of folder_name)
          \<and> disk (snd (main uc fs0)) (module_dir_of folder_name) = fs0 (module_dir_of folder_name)
          \<and> [0x26A0, 0xFE0F] @ lit ''  Missing: '' @ folder_name \<in> set (stdout (snd (main uc fs0))))
    \<and> (\<forall>p. disk (snd (main uc fs0)) p \<noteq> fs0 p \<longrightarrow>
          (\<exists>e \<in> set MODULE_MAPPING. os_path_exists fs0 (doc_path_of (fst e))
             \<and> p = output_file_of (fst e))
          \<or> fs0 p = None \<and> disk (snd (main uc fs0)) p = Some Dir
            \<and> (p \<in> set output_ancestors
               \<or> (\<exists>e \<in> set MODULE_MAPPING. os_path_exists fs0 (doc_path_of (fst e))
                    \<and> p = module_dir_of (fst e))))
    \<and> stdout (snd (main uc fs0))
        = banner @ map (line_of fs0) MODULE_MAPPING
          @ closing (int (length (filter (\<lambda>e. os_path_exists fs0 (doc_path_of (fst e)))
                                    MODULE_MAPPING)))
    \<and> (\<forall>w n. \<not> os_path_exists (disk w) (doc_path_of folder_name) \<longrightarrow>
          loop_body uc (folder_name, module_info) (w, n)
            = (None, print ([0x26A0, 0xFE0F] @ lit ''  Missing: '' @ folder_name) w, n))
    \<and> doc_path_of folder_name = os_path_join docs_dir folder_name
    \<and> output_file_of folder_name
        = os_path_join (os_path_join output_dir folder_name) (lit ''index.html'')"
proof -
  obtain r fs2 ls k where run0: "run_effect uc MODULE_MAPPING fs0 = (r, fs2, ls, k)"
    by (cases "run_effect uc MODULE_MAPPING fs0") auto
  have r: "r = None"
    using assms(1) by (simp add: main_effect run0)
  note run = run0 [unfolded r]
  have m: "main uc fs0 = (None, \<lparr>disk = fs2, stdout = banner @ ls @ closing k\<rparr>)"
    by (simp add: main_effect run)
  note c = run_effect_complete [OF valid_MODULE_MAPPING run]
  have v: "valid_id folder_name"
    using valid_table_id [OF valid_MODULE_MAPPING assms(2)] by simp
  have present: "fs0 (doc_path_of folder_name) \<noteq> None \<Longrightarrow>
      fs2 (output_file_of folder_name) = Some (File (page_of uc fs0 (folder_name, module_info)))"
    using c assms(2) by fastforce
  have absent: "fs2 (module_dir_of folder_name) = fs0 (module_dir_of folder_name)
      \<and> fs2 (output_file_of folder_name) = fs0 (output_file_of folder_name)"
    if "fs0 (doc_path_of folder_name) = None"
    using run_effect_absent [OF valid_MODULE_MAPPING run assms(2)] that by simp
  have warned: "[0x26A0, 0xFE0F] @ lit ''  Missing: '' @ folder_name \<in> set ls"
    if a: "fs0 (doc_path_of folder_name) = None"
  proof -
    have "line_of fs0 (folder_name, module_info) \<in> set (map (line_of fs0) MODULE_MAPPING)"
      unfolding set_map using assms(2) by (rule imageI)
    then show ?thesis
      using c a by (simp add: line_of_def)
  qed
  have frame: "(\<exists>e \<in> set MODULE_MAPPING. fs0 (doc_path_of (fst e)) \<noteq> None
        \<and> p = output_file_of (fst e))
      \<or> fs0 p = None \<and> fs2 p = Some Dir
        \<and> (p \<in> set output_ancestors
           \<or> (\<exists>e \<in> set MODULE_MAPPING. fs0 (doc_path_of (fst e)) \<noteq> None
                \<and> p = module_dir_of (fst e)))"
    if d: "fs2 p \<noteq> fs0 p" for p
    by (rule run_effect_changes [OF valid_MODULE_MAPPING run d])
  have paths: "doc_path_of folder_name = os_path_join docs_dir folder_name"
    "output_file_of folder_name
      = os_path_join (os_path_join output_dir folder_name) (lit ''index.html'')"
    by (simp_all add: join_docs_dir [OF v] join_output_dir [OF v] join_index [OF v])
  have lines: "ls = map (line_of fs0) MODULE_MAPPING"
    and count: "k = int (length (filter (\<lambda>e. fs0 (doc_path_of (fst e)) \<noteq> None) MODULE_MAPPING))"
    using c by simp_all
  have skipped: "\<forall>w n. \<not> os_path_exists (disk w) (doc_path_of folder_name) \<longrightarrow>
          loop_body uc (folder_name, module_info) (w, n)
            = (None, print ([0x26A0, 0xFE0F] @ lit ''  Missing: '' @ folder_name) w, n)"
    using absent_entry_skipped [OF v] by blast
  show ?thesis
  proof (intro conjI)
    show "os_path_exists fs0 (doc_path_of folder_name) \<longrightarrow>
            disk (snd (main uc fs0)) (output_file_of folder_name)
              = Some (File (page_of uc fs0 (folder_name, module_info)))"
      using present by (simp add: m os_path_exists_def)
    show "\<not> os_path_exists fs0 (doc_path_of folder_name) \<longrightarrow>
            disk (snd (main uc fs0)) (output_file_of folder_name) = fs0 (output_file_of folder_name)
          \<and> disk (snd (main uc fs0)) (module_dir_of folder_name) = fs0 (module_dir_of folder_name)
          \<and> [0x26A0, 0xFE0F] @ lit ''  Missing: '' @ folder_name \<in> set (stdout (snd (main uc fs0)))"
      using absent warned by (simp add: m os_path_exists_def)
    show "\<forall>p. disk (snd (main uc fs0)) p \<noteq> fs0 p \<longrightarrow>
          (\<exists>e \<in> set MODULE_MAPPING. os_path_exists fs0 (doc_path_of (fst e))
             \<and> p = output_file_of (fst e))
          \<or> fs0 p = None \<and> disk (snd (main uc fs0)) p = Some Dir
            \<and> (p \<in> set output_ancestors
               \<or> (\<exists>e \<in> set MODULE_MAPPING. os_path_exists fs0 (doc_path_of (fst e))
                    \<and> p = module_dir_of (fst e)))"
      using frame unfolding m snd_conv world.simps os_path_exists_def by blast
    show "stdout (snd (main uc fs0))
        = banner @ map (line_of fs0) MODULE_MAPPING
          @ closing (int (length (filter (\<lambda>e. os_path_exists fs0 (doc_path_of (fst e)))
                                    MODULE_MAPPING)))"
      unfolding m snd_conv world.simps os_path_exists_def lines count ..
    show "\<forall>w n. \<not> os_path_exists (disk w) (doc_path_of folder_name) \<longrightarrow>
          loop_body uc (folder_name, module_info) (w, n)
            = (None, print ([0x26A0, 0xFE0F] @ lit ''  Missing: '' @ folder_name) w, n)"
      by (rule skipped)
    show "doc_path_of folder_name = os_path_join docs_dir folder_name"
      by (rule paths(1))
    show "output_file_of folder_name
        = os_path_join (os_path_join output_dir folder_name) (lit ''index.html'')"
      by (rule paths(2))
  qed
qed

text \<open>
  On the first file system nothing of the output is there: the run makes the output
  root with the directories above it, writes the page of the one module whose source
  folder is there, and warns of the second module.
\<close>

theorem main_outputs_witness:
  "fst (main ascii_uc docs_fs) = None
   \<and> disk (snd (main ascii_uc docs_fs)) (output_file_of (lit ''01-firstuse''))
       = Some (File (page_of ascii_uc docs_fs (lit ''01-firstuse'', snd (MODULE_MAPPING ! 0))))
   \<and> disk (snd (main ascii_uc docs_fs)) (output_file_of (lit ''02-toolkit'')) = None
   \<and> [0x26A0, 0xFE0F] @ lit ''  Missing: '' @ lit ''02-toolkit''
       \<in> set (stdout (snd (main ascii_uc docs_fs)))
   \<and> docs_fs output_dir = None
   \<and> disk (snd (main ascii_uc docs_fs)) output_dir = Some Dir"
proof -
  have run: "fst (main ascii_uc docs_fs) = None"
    by code_simp
  have e0: "(lit ''01-firstuse'', snd (MODULE_MAPPING ! 0)) \<in> set MODULE_MAPPING"
    by (simp add: MODULE_MAPPING_def)
  have e1: "(lit ''02-toolkit'', snd (MODULE_MAPPING ! 1)) \<in> set MODULE_MAPPING"
    by (simp add: MODULE_MAPPING_def)
  have p0: "os_path_exists docs_fs (doc_path_of (lit ''01-firstuse''))"
    by code_simp
  have p1: "\<not> os_path_exists docs_fs (doc_path_of (lit ''02-toolkit''))"
    by code_simp
  have n1: "docs_fs (output_file_of (lit ''02-toolkit'')) = None"
    by code_simp
  have od: "docs_fs output_dir = None"
    by code_simp
  have made: "disk (snd (main ascii_uc docs_fs)) output_dir = Some Dir"
    by code_simp
  have a: "disk (snd (main ascii_uc docs_fs)) (output_file_of (lit ''01-firstuse''))
      = Some (File (page_of ascii_uc docs_fs (lit ''01-firstuse'', snd (MODULE_MAPPING ! 0))))"
    using main_outputs [OF run e0, THEN conjunct1] p0 by (rule mp)
  have "disk (snd (main ascii_uc docs_fs)) (output_file_of (lit ''02-toolkit''))
        = docs_fs (output_file_of (lit ''02-toolkit''))
      \<and> disk (snd (main ascii_uc docs_fs)) (module_dir_of (lit ''02-toolkit''))
        = docs_fs (module_dir_of (lit ''02-toolkit''))
      \<and> [0x26A0, 0xFE0F] @ lit ''  Missing: '' @ lit ''02-toolkit''
        \<in> set (stdout (snd (main ascii_uc docs_fs)))"
    using main_outputs [OF run e1, THEN conjunct2, THEN conjunct1] p1 by (rule mp)
  then show ?thesis
    using run a od made by (simp only: n1 simp_thms)
qed

text \<open>
  On the second file system the source folder of the third module is there, and the run
  is ended by the regular file in the place of the output directory of the second
  module: the third module gets no page.
\<close>

theorem main_abort_leaves_module_out:
  "lit ''03-httpcg-client'' \<in> set (map fst MODULE_MAPPING)
   \<and> os_path_exists blocked_fs (os_path_join docs_dir (lit ''03-httpcg-client''))
   \<and> fst (main ascii_uc blocked_fs)
       = Some (FileExistsError (lit ''/home/umesh/metanode/docs/modules/02-toolkit''))
   \<and> disk (snd (main ascii_uc blocked_fs))
         (lit ''/home/umesh/metanode/docs/modules/03-httpcg-client/index.html'') = None"
proof (intro conjI)
  show "lit ''03-httpcg-client'' \<in> set (map fst MODULE_MAPPING)"
    by (simp add: MODULE_MAPPING_def)
  show "os_path_exists blocked_fs (os_path_join docs_dir (lit ''03-httpcg-client''))"
    by code_simp
  show "fst (main ascii_uc blocked_fs)
      = Some (FileExistsError (lit ''/home/umesh/metanode/docs/modules/02-toolkit''))"
    by code_simp
  show "disk (snd (main ascii_uc blocked_fs))
      (lit ''/home/umesh/metanode/docs/modules/03-httpcg-client/index.html'') = None"
    by code_simp
qed

text \<open>
  C7. A second run on the file system the first run left gives the result of the first
  run again: the same exception or none, the same file system with the same pages, the
  same lines on the console. The page of a module depends on the file system through
  the \<^verbatim>\<open>README.md\<close> of its folder alone. The extractors and the renderer are
  functions of their arguments: they read no clock, no random source and no state.
\<close>

theorem main_rerun_identical:
  "main uc (disk (snd (main uc fs0))) = main uc fs0
   \<and> (\<forall>f g. f (os_path_join doc_path (lit ''README.md''))
                 = g (os_path_join doc_path (lit ''README.md''))
          \<longrightarrow> create_module_page uc f folder_name module_info doc_path
              = create_module_page uc g folder_name module_info doc_path)"
proof
  obtain r fs2 ls k where run: "run_effect uc MODULE_MAPPING fs0 = (r, fs2, ls, k)"
    by (cases "run_effect uc MODULE_MAPPING fs0") auto
  have "run_effect uc MODULE_MAPPING fs2 = (r, fs2, ls, k)"
    by (rule run_effect_again [OF valid_MODULE_MAPPING run])
  then show "main uc (disk (snd (main uc fs0))) = main uc fs0"
    by (simp add: main_effect run)
next
  show "\<forall>f g. f (os_path_join doc_path (lit ''README.md''))
                 = g (os_path_join doc_path (lit ''README.md''))
          \<longrightarrow> create_module_page uc f folder_name module_info doc_path
              = create_module_page uc g folder_name module_info doc_path"
    by (simp add: create_module_page_def os_path_exists_def open_read_def Let_def)
qed

theorem main_rerun_identical_witness:
  "main ascii_uc (disk (snd (main ascii_uc docs_fs))) = main ascii_uc docs_fs
   \<and> create_module_page ascii_uc docs_fs (lit ''01-firstuse'') (snd (MODULE_MAPPING ! 0))
         (lit ''/home/umesh/documentation/01-firstuse'')
       = create_module_page ascii_uc (docs_fs(lit ''/tmp/scratch'' \<mapsto> Dir))
           (lit ''01-firstuse'') (snd (MODULE_MAPPING ! 0))
           (lit ''/home/umesh/documentation/01-firstuse'')"
proof -
  have "docs_fs (os_path_join (lit ''/home/umesh/documentation/01-firstuse'') (lit ''README.md''))
      = (docs_fs(lit ''/tmp/scratch'' \<mapsto> Dir))
          (os_path_join (lit ''/home/umesh/documentation/01-firstuse'') (lit ''README.md''))"
    by code_simp
  then show ?thesis
    using main_rerun_identical [of ascii_uc docs_fs
        "lit ''/home/umesh/documentation/01-firstuse''" "lit ''01-firstuse''"
        "snd (MODULE_MAPPING ! 0)"]
    by blast
qed




end
